theory Spec2Isabelle
  imports Complex_Main "HOL-Library.AList" "HOL-Library.List_Lexorder" "HOL-Library.Char_ord"
    "HOL-Library.Multiset"
begin

section \<open>Python containers\<close>

text \<open>
  A Python \<^verbatim>\<open>dict\<close> keeps its keys in insertion order, and an assignment to a key that
  is already present keeps the key's position. Where the program iterates over a dict it is
  an association list written with \<^const>\<open>AList.update\<close> (replace in place, else append at
  the end) and read with \<^const>\<open>map_of\<close>; where the program only looks keys up it is a map.
  Item and user identifiers are strings, ordered as Python orders them (by code point,
  lexicographically). Python's integers are \<^typ>\<open>int\<close>.
\<close>

type_synonym ('k, 'v) dict = "('k \<times> 'v) list"

text \<open>\<^verbatim>\<open>d.get(key, default)\<close> on an insertion-ordered dict.\<close>

definition dict_get :: "('k, 'v) dict \<Rightarrow> 'k \<Rightarrow> 'v \<Rightarrow> 'v" where
  "dict_get d k dflt = (case map_of d k of None \<Rightarrow> dflt | Some v \<Rightarrow> v)"

text \<open>
  \<^verbatim>\<open>xs[:n]\<close>: a negative bound counts from the end of the list, and a bound outside the
  list is clamped.
\<close>

definition slice_to :: "'a list \<Rightarrow> int \<Rightarrow> 'a list" where
  "slice_to xs n = (if 0 \<le> n then take (nat n) xs else take (nat (int (length xs) + n)) xs)"

text \<open>
  \<^verbatim>\<open>sorted(pairs, key=lambda x: x[1], reverse=True)\<close>: a stable sort by descending score
  (with \<^verbatim>\<open>reverse=True\<close> entries of equal score keep their original order).
\<close>

definition sorted_by_score_desc :: "('k \<times> 'v::linordered_ab_group_add) list \<Rightarrow> ('k \<times> 'v) list" where
  "sorted_by_score_desc ps = sort_key (\<lambda>x. - snd x) ps"

section \<open>Item-to-item collaborative filtering (class ItemToItemCF)\<close>

record interaction =
  user_id :: string
  item_id :: string
  rating :: rat

type_synonym pair_key = "string \<times> string"

record cf_state =
  item_similarity :: "string \<rightharpoonup> (string, int) dict"
  item_ids :: "string list"
  co_occurrence :: "pair_key \<rightharpoonup> int"

text \<open>\<^verbatim>\<open>__init__\<close>\<close>

definition cf_init :: cf_state where
  "cf_init = \<lparr>item_similarity = Map.empty, item_ids = [], co_occurrence = Map.empty\<rparr>"

text \<open>\<^verbatim>\<open>tuple(sorted([item1, item2]))\<close>; Python's sort is stable.\<close>

definition sorted_pair :: "string \<Rightarrow> string \<Rightarrow> pair_key" where
  "sorted_pair item1 item2 = (if item2 < item1 then (item2, item1) else (item1, item2))"

text \<open>\<^verbatim>\<open>self.co_occurrence.get(key, 0)\<close>\<close>

definition co_get :: "(pair_key \<rightharpoonup> int) \<Rightarrow> pair_key \<Rightarrow> int" where
  "co_get co key = (case co key of None \<Rightarrow> 0 | Some c \<Rightarrow> c)"

subsection \<open>fit, first loop: group the items by user and register new items\<close>

text \<open>
  \<^verbatim>\<open>if uid not in user_items: user_items[uid] = []\<close> followed by
  \<^verbatim>\<open>user_items[uid].append(iid)\<close>.
\<close>

definition append_item ::
  "(string, string list) dict \<Rightarrow> string \<Rightarrow> string \<Rightarrow> (string, string list) dict" where
  "append_item user_items uid iid = AList.update uid (dict_get user_items uid [] @ [iid]) user_items"

text \<open>\<^verbatim>\<open>if iid not in self.item_ids: self.item_ids.append(iid)\<close>\<close>

definition register_item :: "string list \<Rightarrow> string \<Rightarrow> string list" where
  "register_item ids iid = (if iid \<in> set ids then ids else ids @ [iid])"

fun group_interactions ::
  "interaction list \<Rightarrow> (string, string list) dict \<times> string list
    \<Rightarrow> (string, string list) dict \<times> string list" where
  "group_interactions [] (user_items, ids) = (user_items, ids)"
| "group_interactions (x # xs) (user_items, ids) =
     group_interactions xs
       (append_item user_items (user_id x) (item_id x), register_item ids (item_id x))"

subsection \<open>fit, second loop: count the pairs of every user's list\<close>

text \<open>\<^verbatim>\<open>self.co_occurrence[key] = self.co_occurrence.get(key, 0) + 1\<close>\<close>

definition bump :: "(pair_key \<rightharpoonup> int) \<Rightarrow> pair_key \<Rightarrow> (pair_key \<rightharpoonup> int)" where
  "bump co key = co(key \<mapsto> co_get co key + 1)"

text \<open>\<^verbatim>\<open>for item2 in items[i+1:]\<close>\<close>

fun count_with :: "string \<Rightarrow> string list \<Rightarrow> (pair_key \<rightharpoonup> int) \<Rightarrow> (pair_key \<rightharpoonup> int)" where
  "count_with item1 [] co = co"
| "count_with item1 (item2 # rest) co = count_with item1 rest (bump co (sorted_pair item1 item2))"

text \<open>\<^verbatim>\<open>for i, item1 in enumerate(items)\<close>\<close>

fun count_pairs :: "string list \<Rightarrow> (pair_key \<rightharpoonup> int) \<Rightarrow> (pair_key \<rightharpoonup> int)" where
  "count_pairs [] co = co"
| "count_pairs (item1 # rest) co = count_pairs rest (count_with item1 rest co)"

text \<open>\<^verbatim>\<open>for uid, items in user_items.items()\<close>\<close>

fun count_users ::
  "(string, string list) dict \<Rightarrow> (pair_key \<rightharpoonup> int) \<Rightarrow> (pair_key \<rightharpoonup> int)" where
  "count_users [] co = co"
| "count_users ((uid, items) # rest) co = count_users rest (count_pairs items co)"

subsection \<open>fit, third loop: rebuild the similarity rows\<close>

text \<open>
  \<^verbatim>\<open>for other_item in self.item_ids: if item != other_item: ...\<close>, filling the row of
  \<^verbatim>\<open>item\<close>.
\<close>

fun build_row ::
  "(pair_key \<rightharpoonup> int) \<Rightarrow> string \<Rightarrow> string list \<Rightarrow> (string, int) dict \<Rightarrow> (string, int) dict" where
  "build_row co item [] row = row"
| "build_row co item (other_item # rest) row =
     build_row co item rest
       (if item \<noteq> other_item
        then AList.update other_item (co_get co (sorted_pair item other_item)) row
        else row)"

text \<open>\<^verbatim>\<open>for item in self.item_ids: self.item_similarity[item] = {}; ...\<close>\<close>

fun build_similarity ::
  "(pair_key \<rightharpoonup> int) \<Rightarrow> string list \<Rightarrow> string list
    \<Rightarrow> (string \<rightharpoonup> (string, int) dict) \<Rightarrow> (string \<rightharpoonup> (string, int) dict)" where
  "build_similarity co ids [] sim = sim"
| "build_similarity co ids (item # rest) sim =
     build_similarity co ids rest (sim(item \<mapsto> build_row co item ids []))"

text \<open>
  \<^verbatim>\<open>fit\<close> starts from the recommender's current tables: nothing in its body empties
  \<^verbatim>\<open>item_ids\<close>, \<^verbatim>\<open>co_occurrence\<close> or \<^verbatim>\<open>item_similarity\<close>; only the
  grouping \<^verbatim>\<open>user_items\<close> is local to the call.
\<close>

definition fit :: "cf_state \<Rightarrow> interaction list \<Rightarrow> cf_state" where
  "fit st interactions =
     (case group_interactions interactions ([], item_ids st) of
        (user_items, ids) \<Rightarrow>
          let co = count_users user_items (co_occurrence st)
          in \<lparr>item_similarity = build_similarity co ids ids (item_similarity st),
              item_ids = ids,
              co_occurrence = co\<rparr>)"

subsection \<open>recommend\<close>

text \<open>
  \<^verbatim>\<open>for other_item, sim in self.item_similarity[hist_item].items()\<close> with the test
  \<^verbatim>\<open>other_item not in user_history\<close>.
\<close>

fun add_row ::
  "string list \<Rightarrow> (string, int) dict \<Rightarrow> (string, int) dict \<Rightarrow> (string, int) dict" where
  "add_row user_history [] scores = scores"
| "add_row user_history ((other_item, sim) # rest) scores =
     add_row user_history rest
       (if other_item \<notin> set user_history
        then AList.update other_item (dict_get scores other_item 0 + sim) scores
        else scores)"

text \<open>\<^verbatim>\<open>for hist_item in user_history: if hist_item in self.item_similarity: ...\<close>\<close>

fun accumulate ::
  "(string \<rightharpoonup> (string, int) dict) \<Rightarrow> string list \<Rightarrow> string list
    \<Rightarrow> (string, int) dict \<Rightarrow> (string, int) dict" where
  "accumulate table user_history [] scores = scores"
| "accumulate table user_history (hist_item # rest) scores =
     accumulate table user_history rest
       (case table hist_item of
          None \<Rightarrow> scores
        | Some row \<Rightarrow> add_row user_history row scores)"

text \<open>The dict \<^verbatim>\<open>scores\<close> when the loop over the history ends.\<close>

definition candidate_scores :: "cf_state \<Rightarrow> string list \<Rightarrow> (string, int) dict" where
  "candidate_scores st user_history = accumulate (item_similarity st) user_history user_history []"

definition sorted_items :: "cf_state \<Rightarrow> string list \<Rightarrow> (string \<times> int) list" where
  "sorted_items st user_history = sorted_by_score_desc (candidate_scores st user_history)"

definition recommend :: "cf_state \<Rightarrow> string list \<Rightarrow> int \<Rightarrow> (string \<times> int) list" where
  "recommend st user_history n = slice_to (sorted_items st user_history) n"

section \<open>Python numbers\<close>

text \<open>
  The scores of the content-based filter are Python numbers: an \<^verbatim>\<open>int\<close> (unbounded) or a
  \<^verbatim>\<open>float\<close>, an IEEE 754 double. A finite double is \<open>Finite m e\<close>, standing for
  m times 2 to the power e; the two zeros are not told apart (the program only subtracts feature values,
  takes absolute values, adds 1, divides 1 by the sum and compares, none of which sees the
  sign of a zero). Every result of an operation is rounded to the nearest double, ties to
  even, and is returned with its mantissa odd (or as \<open>Finite 0 0\<close>). The type also holds
  pairs that are no doubles (a mantissa of more than 53 bits); the operations round
  whatever they are given, and every theorem below holds for such arguments too.
\<close>

datatype py_error = OverflowError | ZeroDivisionError

datatype double = Finite int int | PosInf | NegInf | NaN

text \<open>\<^verbatim>\<open>n.bit_length()\<close> for \<open>n \<ge> 0\<close>.\<close>

function bit_length :: "int \<Rightarrow> int" where
  "bit_length n = (if n \<le> 0 then 0 else 1 + bit_length (n div 2))"
  by pat_completeness auto
termination
  by (relation "measure nat") auto

declare bit_length.simps [simp del]

text \<open>\<open>m * 2 ^ k\<close> for \<open>k \<ge> 0\<close>, and \<open>m\<close> for \<open>k < 0\<close>.\<close>

definition scale_up :: "int \<Rightarrow> int \<Rightarrow> int" where
  "scale_up m k = m * 2 ^ nat k"

text \<open>The exponent of the binade of \<open>p / q\<close>, for positive \<open>p\<close> and \<open>q\<close>.\<close>

definition floor_log2_ratio :: "int \<Rightarrow> int \<Rightarrow> int" where
  "floor_log2_ratio p q =
     (let c = bit_length p - bit_length q
      in if scale_up q c \<le> scale_up p (- c) then c else c - 1)"

function strip_zeros :: "int \<Rightarrow> int \<Rightarrow> int \<times> int" where
  "strip_zeros m e =
     (if m = 0 then (0, 0)
      else if even m then strip_zeros (m div 2) (e + 1)
      else (m, e))"
  by pat_completeness auto
termination
  by (relation "measure (\<lambda>(m, e). nat \<bar>m\<bar>)") auto

declare strip_zeros.simps [simp del]

text \<open>
  The double nearest to \<open>\<plusminus> p / q\<close> (\<open>p \<ge> 0\<close>, \<open>q > 0\<close>): 53 significant bits, exponents
  down to the subnormal range (unit in the last place at least 2 to the power -1074), ties to
  even, and an infinity when the rounded value reaches 2 to the power 1024.
\<close>

definition round_ratio :: "bool \<Rightarrow> int \<Rightarrow> int \<Rightarrow> double" where
  "round_ratio negative p q =
     (if p = 0 then Finite 0 0
      else
        let e = max (floor_log2_ratio p q) (- 1022);
            s = e - 52;
            num = scale_up p (- s);
            den = scale_up q s;
            f = num div den;
            r = num mod den;
            k = (if 2 * r < den then f
                 else if den < 2 * r then f + 1
                 else if even f then f else f + 1)
        in if 971 < s \<or> (s = 971 \<and> 2 ^ 53 \<le> k)
           then (if negative then NegInf else PosInf)
           else (case strip_zeros k s of (m, e') \<Rightarrow> Finite (if negative then - m else m) e'))"

fun fneg :: "double \<Rightarrow> double" where
  "fneg (Finite m e) = Finite (- m) e"
| "fneg PosInf = NegInf"
| "fneg NegInf = PosInf"
| "fneg NaN = NaN"

fun fabs :: "double \<Rightarrow> double" where
  "fabs (Finite m e) = Finite \<bar>m\<bar> e"
| "fabs PosInf = PosInf"
| "fabs NegInf = PosInf"
| "fabs NaN = NaN"

definition round_dyadic :: "int \<Rightarrow> int \<Rightarrow> double" where
  "round_dyadic m e = round_ratio (m < 0) (scale_up \<bar>m\<bar> e) (scale_up 1 (- e))"

fun fadd :: "double \<Rightarrow> double \<Rightarrow> double" where
  "fadd NaN y = NaN"
| "fadd x NaN = NaN"
| "fadd PosInf NegInf = NaN"
| "fadd NegInf PosInf = NaN"
| "fadd PosInf y = PosInf"
| "fadd NegInf y = NegInf"
| "fadd x PosInf = PosInf"
| "fadd x NegInf = NegInf"
| "fadd (Finite m1 e1) (Finite m2 e2) =
     (let e = min e1 e2
      in round_dyadic (scale_up m1 (e1 - e) + scale_up m2 (e2 - e)) e)"

definition fsub :: "double \<Rightarrow> double \<Rightarrow> double" where
  "fsub x y = fadd x (fneg y)"

fun is_zero :: "double \<Rightarrow> bool" where
  "is_zero (Finite m e) = (m = 0)"
| "is_zero x = False"

fun fdiv_nonzero :: "double \<Rightarrow> double \<Rightarrow> double" where
  "fdiv_nonzero NaN y = NaN"
| "fdiv_nonzero x NaN = NaN"
| "fdiv_nonzero (Finite m1 e1) (Finite m2 e2) =
     round_ratio ((m1 < 0) \<noteq> (m2 < 0))
       (scale_up \<bar>m1\<bar> (e1 - e2)) (scale_up \<bar>m2\<bar> (e2 - e1))"
| "fdiv_nonzero (Finite m e) y = Finite 0 0"
| "fdiv_nonzero x (Finite m e) =
     (if (x = PosInf) = (0 < m) then PosInf else NegInf)"
| "fdiv_nonzero x y = NaN"

text \<open>Python raises \<^verbatim>\<open>ZeroDivisionError\<close> on a float division by zero.\<close>

definition fdiv :: "double \<Rightarrow> double \<Rightarrow> py_error + double" where
  "fdiv x y = (if is_zero y then Inl ZeroDivisionError else Inr (fdiv_nonzero x y))"

datatype number = I int | F double

text \<open>
  The conversion of an \<^verbatim>\<open>int\<close> operand that meets a \<^verbatim>\<open>float\<close>: rounded to the nearest
  double, \<^verbatim>\<open>OverflowError\<close> (int too large to convert to float) when that is out of range.
\<close>

definition int_to_float :: "int \<Rightarrow> py_error + double" where
  "int_to_float i =
     (case round_ratio (i < 0) \<bar>i\<bar> 1 of
        PosInf \<Rightarrow> Inl OverflowError
      | NegInf \<Rightarrow> Inl OverflowError
      | d \<Rightarrow> Inr d)"

fun to_float :: "number \<Rightarrow> py_error + double" where
  "to_float (I i) = int_to_float i"
| "to_float (F d) = Inr d"

definition float_op ::
  "(double \<Rightarrow> double \<Rightarrow> py_error + double) \<Rightarrow> number \<Rightarrow> number \<Rightarrow> py_error + number" where
  "float_op f a b =
     (case to_float a of
        Inl err \<Rightarrow> Inl err
      | Inr x \<Rightarrow>
          (case to_float b of
             Inl err \<Rightarrow> Inl err
           | Inr y \<Rightarrow> map_sum id F (f x y)))"

text \<open>\<^verbatim>\<open>a + b\<close>, \<^verbatim>\<open>a - b\<close> and \<^verbatim>\<open>abs(a)\<close>: exact on two ints, in doubles otherwise.\<close>

fun py_add :: "number \<Rightarrow> number \<Rightarrow> py_error + number" where
  "py_add (I x) (I y) = Inr (I (x + y))"
| "py_add a b = float_op (\<lambda>x y. Inr (fadd x y)) a b"

fun py_sub :: "number \<Rightarrow> number \<Rightarrow> py_error + number" where
  "py_sub (I x) (I y) = Inr (I (x - y))"
| "py_sub a b = float_op (\<lambda>x y. Inr (fsub x y)) a b"

fun py_abs :: "number \<Rightarrow> number" where
  "py_abs (I x) = I \<bar>x\<bar>"
| "py_abs (F d) = F (fabs d)"

text \<open>
  \<^verbatim>\<open>a / b\<close>: the quotient of two ints is the double nearest to the exact quotient
  (\<^verbatim>\<open>OverflowError\<close> when out of range, zero on underflow).
\<close>

fun py_truediv :: "number \<Rightarrow> number \<Rightarrow> py_error + number" where
  "py_truediv (I x) (I y) =
     (if y = 0 then Inl ZeroDivisionError
      else (case round_ratio ((x < 0) \<noteq> (y < 0)) \<bar>x\<bar> \<bar>y\<bar> of
              PosInf \<Rightarrow> Inl OverflowError
            | NegInf \<Rightarrow> Inl OverflowError
            | d \<Rightarrow> Inr (F d)))"
| "py_truediv a b = float_op fdiv a b"

text \<open>
  Comparisons are by exact value, also between an int and a float; every comparison with
  NaN is false. A number is placed by the pair of its class (\<open>-1\<close> for \<open>-\<infinity>\<close>, 0 for a
  finite value, 1 for \<open>+\<infinity>\<close>) and its value.
\<close>

definition pow2 :: "int \<Rightarrow> rat" where
  "pow2 k = (if 0 \<le> k then 2 ^ nat k else 1 / 2 ^ nat (- k))"

fun is_nan :: "number \<Rightarrow> bool" where
  "is_nan (F NaN) = True"
| "is_nan x = False"

fun magnitude :: "number \<Rightarrow> int \<times> rat" where
  "magnitude (I i) = (0, of_int i)"
| "magnitude (F (Finite m e)) = (0, of_int m * pow2 e)"
| "magnitude (F PosInf) = (1, 0)"
| "magnitude (F NegInf) = (- 1, 0)"
| "magnitude (F NaN) = (0, 0)"

definition py_lt :: "number \<Rightarrow> number \<Rightarrow> bool" where
  "py_lt a b =
     (\<not> is_nan a \<and> \<not> is_nan b \<and>
      (fst (magnitude a) < fst (magnitude b) \<or>
       fst (magnitude a) = fst (magnitude b) \<and> snd (magnitude a) < snd (magnitude b)))"

definition py_eq :: "number \<Rightarrow> number \<Rightarrow> bool" where
  "py_eq a b = (\<not> is_nan a \<and> \<not> is_nan b \<and> magnitude a = magnitude b)"

definition py_ge :: "number \<Rightarrow> number \<Rightarrow> bool" where
  "py_ge a b = (py_lt b a \<or> py_eq a b)"

section \<open>Content-based filtering (class ContentBasedFilter)\<close>

text \<open>Feature values are the scalars of a JSON document.\<close>

datatype scalar = PInt int | PFloat double | PStr string | PBool bool | PNone

text \<open>
  \<^verbatim>\<open>isinstance(v, (int, float))\<close>. In Python \<^verbatim>\<open>bool\<close> is a subclass of
  \<^verbatim>\<open>int\<close>, so the test succeeds on \<^verbatim>\<open>True\<close> and \<^verbatim>\<open>False\<close>.
\<close>

fun is_int_or_float :: "scalar \<Rightarrow> bool" where
  "is_int_or_float (PInt i) = True"
| "is_int_or_float (PFloat d) = True"
| "is_int_or_float (PBool b) = True"
| "is_int_or_float (PStr s) = False"
| "is_int_or_float PNone = False"

text \<open>
  The number a scalar is in arithmetic; \<^verbatim>\<open>True\<close> is 1 and \<^verbatim>\<open>False\<close> is 0. It is used
  only on scalars that pass \<^const>\<open>is_int_or_float\<close>.
\<close>

fun as_number :: "scalar \<Rightarrow> number" where
  "as_number (PInt i) = I i"
| "as_number (PFloat d) = F d"
| "as_number (PBool b) = I (if b then 1 else 0)"
| "as_number (PStr s) = I 0"
| "as_number PNone = I 0"

text \<open>
  Python's \<^verbatim>\<open>==\<close> on scalars: numbers (booleans among them) compare by value, a string
  equals only the same string, \<^verbatim>\<open>None\<close> only \<^verbatim>\<open>None\<close>.
\<close>

definition scalar_eq :: "scalar \<Rightarrow> scalar \<Rightarrow> bool" where
  "scalar_eq a b =
     (if is_int_or_float a \<and> is_int_or_float b then py_eq (as_number a) (as_number b)
      else a = b)"

type_synonym features = "(string, scalar) dict"

record cb_state =
  items :: "(string, features) dict"

definition cb_init :: cb_state where
  "cb_init = \<lparr>items = []\<rparr>"

definition add_item :: "cb_state \<Rightarrow> string \<Rightarrow> features \<Rightarrow> cb_state" where
  "add_item st iid fs = st\<lparr>items := AList.update iid fs (items st)\<rparr>"

text \<open>\<^verbatim>\<open>1 / (1 + abs(value - item[key]))\<close>, evaluated inside out.\<close>

definition numerical_similarity :: "scalar \<Rightarrow> scalar \<Rightarrow> py_error + number" where
  "numerical_similarity v w =
     (case py_sub (as_number v) (as_number w) of
        Inl err \<Rightarrow> Inl err
      | Inr d \<Rightarrow>
          (case py_add (I 1) (py_abs d) of
             Inl err \<Rightarrow> Inl err
           | Inr s \<Rightarrow> py_truediv (I 1) s))"

text \<open>The body of the loop of \<^verbatim>\<open>_calculate_similarity\<close>, for one entry of the query.\<close>

definition score_step :: "features \<Rightarrow> string \<times> scalar \<Rightarrow> number \<Rightarrow> py_error + number" where
  "score_step item kv score =
     (case map_of item (fst kv) of
        None \<Rightarrow> Inr score
      | Some w \<Rightarrow>
          if scalar_eq w (snd kv) then py_add score (I 1)
          else if is_int_or_float (snd kv) \<and> is_int_or_float w
          then (case numerical_similarity (snd kv) w of
                  Inl err \<Rightarrow> Inl err
                | Inr c \<Rightarrow> py_add score c)
          else Inr score)"

fun score_loop :: "features \<Rightarrow> features \<Rightarrow> number \<Rightarrow> py_error + number" where
  "score_loop [] item score = Inr score"
| "score_loop (kv # rest) item score =
     (case score_step item kv score of
        Inl err \<Rightarrow> Inl err
      | Inr score' \<Rightarrow> score_loop rest item score')"

definition calculate_similarity :: "features \<Rightarrow> features \<Rightarrow> py_error + number" where
  "calculate_similarity query item = score_loop query item (I 0)"

text \<open>
  \<^verbatim>\<open>for item_id, features in self.items.items(): scores.append(...)\<close>; an exception of
  the scoring ends the call.
\<close>

fun score_items ::
  "features \<Rightarrow> (string, features) dict \<Rightarrow> (string \<times> number) list
    \<Rightarrow> py_error + (string \<times> number) list" where
  "score_items query_features [] scores = Inr scores"
| "score_items query_features ((iid, fs) # rest) scores =
     (case calculate_similarity query_features fs of
        Inl err \<Rightarrow> Inl err
      | Inr score \<Rightarrow> score_items query_features rest (scores @ [(iid, score)]))"

definition all_scores :: "cb_state \<Rightarrow> features \<Rightarrow> py_error + (string \<times> number) list" where
  "all_scores st query_features = score_items query_features (items st) []"

text \<open>
  \<^verbatim>\<open>scores.sort(key=lambda x: x[1], reverse=True)\<close>. The sort compares the keys with
  \<^verbatim>\<open><\<close> only and is stable. When no key is NaN, \<^verbatim>\<open><\<close> orders the keys totally and the
  result is the one descending arrangement that keeps entries of equal score in their
  original order, \<^verbatim>\<open>stable_desc\<close> below. When a key is NaN the arrangement depends on
  the steps of the sorting algorithm, which the language does not fix; the sort is then a
  parameter of the model of which only this is known: it permutes its argument.
\<close>

fun insert_desc :: "string \<times> number \<Rightarrow> (string \<times> number) list \<Rightarrow> (string \<times> number) list" where
  "insert_desc x [] = [x]"
| "insert_desc x (y # ys) =
     (if py_lt (snd x) (snd y) then y # insert_desc x ys else x # y # ys)"

definition stable_desc :: "(string \<times> number) list \<Rightarrow> (string \<times> number) list" where
  "stable_desc xs = foldr insert_desc xs []"

definition has_nan :: "(string \<times> number) list \<Rightarrow> bool" where
  "has_nan xs = list_ex (\<lambda>x. is_nan (snd x)) xs"

definition python_sort :: "((string \<times> number) list \<Rightarrow> (string \<times> number) list) \<Rightarrow> bool" where
  "python_sort srt \<longleftrightarrow>
     (\<forall>xs. mset (srt xs) = mset xs \<and> (\<not> has_nan xs \<longrightarrow> srt xs = stable_desc xs))"

definition find_similar ::
  "((string \<times> number) list \<Rightarrow> (string \<times> number) list) \<Rightarrow> cb_state \<Rightarrow> features \<Rightarrow> int
    \<Rightarrow> py_error + (string \<times> number) list" where
  "find_similar srt st query_features n =
     (case all_scores st query_features of
        Inl err \<Rightarrow> Inl err
      | Inr scores \<Rightarrow> Inr (slice_to (srt scores) n))"

section \<open>Notions used to state the properties\<close>

subsection \<open>Fitted states and table lookups\<close>

text \<open>The states a recommender can be in: freshly constructed, or after any number of calls of \<^verbatim>\<open>fit\<close>.\<close>

inductive fitted :: "cf_state \<Rightarrow> bool" where
  fitted_init: "fitted cf_init"
| fitted_fit: "fitted st \<Longrightarrow> fitted (fit st interactions)"

text \<open>
  \<^verbatim>\<open>self.item_similarity[a][b]\<close>; \<^const>\<open>None\<close> where Python raises \<^verbatim>\<open>KeyError\<close>.
\<close>

definition similarity :: "cf_state \<Rightarrow> string \<Rightarrow> string \<Rightarrow> int option" where
  "similarity st a b = (case item_similarity st a of None \<Rightarrow> None | Some row \<Rightarrow> map_of row b)"

text \<open>The grouping \<^verbatim>\<open>user_items\<close> that the first loop of \<^verbatim>\<open>fit\<close> builds from its argument.\<close>

definition user_items_of :: "interaction list \<Rightarrow> (string, string list) dict" where
  "user_items_of interactions = fst (group_interactions interactions ([], []))"

text \<open>The keys that the second loop of \<^verbatim>\<open>fit\<close> increments, in the order of the increments.\<close>

fun pairs_with :: "string \<Rightarrow> string list \<Rightarrow> pair_key list" where
  "pairs_with item1 [] = []"
| "pairs_with item1 (item2 # rest) = sorted_pair item1 item2 # pairs_with item1 rest"

fun pairs_of :: "string list \<Rightarrow> pair_key list" where
  "pairs_of [] = []"
| "pairs_of (item1 # rest) = pairs_with item1 rest @ pairs_of rest"

fun pairs_of_users :: "(string, string list) dict \<Rightarrow> pair_key list" where
  "pairs_of_users [] = []"
| "pairs_of_users ((uid, item_list) # rest) = pairs_of item_list @ pairs_of_users rest"

text \<open>The row of an item over all other registered items, in registration order.\<close>

definition full_row :: "(pair_key \<rightharpoonup> int) \<Rightarrow> string list \<Rightarrow> string \<Rightarrow> (string, int) dict" where
  "full_row co ids item =
     map (\<lambda>other_item. (other_item, co_get co (sorted_pair item other_item)))
       (filter (\<lambda>other_item. other_item \<noteq> item) ids)"

text \<open>
  The invariant of the recommender: the registered items are distinct, the similarity table
  has exactly one full row per registered item, and the keys of the co-occurrence table are
  sorted pairs.
\<close>

definition cf_inv :: "cf_state \<Rightarrow> bool" where
  "cf_inv st \<longleftrightarrow>
     distinct (item_ids st) \<and>
     (\<forall>x. item_similarity st x =
        (if x \<in> set (item_ids st) then Some (full_row (co_occurrence st) (item_ids st) x) else None)) \<and>
     (\<forall>k \<in> dom (co_occurrence st). fst k \<le> snd k)"

subsection \<open>The scoring rule in the words of the specification\<close>

text \<open>
  A contribution is an error, nothing (the key contributes 0: the score is left as it
  is), or a number that is added to the score. The contributions are added to the int 0 in
  the order of the query, and the first error ends the sum.
\<close>

fun add_contributions :: "number \<Rightarrow> (py_error + number option) list \<Rightarrow> py_error + number" where
  "add_contributions score [] = Inr score"
| "add_contributions score (Inl err # rest) = Inl err"
| "add_contributions score (Inr None # rest) = add_contributions score rest"
| "add_contributions score (Inr (Some c) # rest) =
     (case py_add score c of
        Inl err \<Rightarrow> Inl err
      | Inr score' \<Rightarrow> add_contributions score' rest)"

text \<open>
  The specification's numeric values are numbers only: a string or a boolean against a
  number is a type mismatch.
\<close>

fun is_number :: "scalar \<Rightarrow> bool" where
  "is_number (PInt i) = True"
| "is_number (PFloat d) = True"
| "is_number (PStr s) = False"
| "is_number (PBool b) = False"
| "is_number PNone = False"

text \<open>
  The contribution of one query entry as the specification words it: 0 for an absent key,
  1 for equal values, the decay for two unequal numbers, 0 otherwise.
\<close>

definition spec_contribution :: "scalar \<Rightarrow> scalar option \<Rightarrow> py_error + number option" where
  "spec_contribution v c =
     (case c of
        None \<Rightarrow> Inr None
      | Some w \<Rightarrow>
          if scalar_eq w v then Inr (Some (I 1))
          else if is_number v \<and> is_number w then map_sum id Some (numerical_similarity v w)
          else Inr None)"

definition spec_score :: "features \<Rightarrow> features \<Rightarrow> py_error + number" where
  "spec_score query item =
     add_contributions (I 0) (map (\<lambda>kv. spec_contribution (snd kv) (map_of item (fst kv))) query)"

text \<open>
  The same rule with the booleans counted among the numbers (\<^verbatim>\<open>True\<close> as 1,
  \<^verbatim>\<open>False\<close> as 0), given by cases on the two values; \<open>decay q c\<close> is
  \<open>1 / (1 + \<bar>q - c\<bar>)\<close> in Python's arithmetic.
\<close>

fun numeric_value :: "scalar \<Rightarrow> number option" where
  "numeric_value (PInt i) = Some (I i)"
| "numeric_value (PFloat d) = Some (F d)"
| "numeric_value (PBool b) = Some (I (if b then 1 else 0))"
| "numeric_value (PStr s) = None"
| "numeric_value PNone = None"

definition decay :: "number \<Rightarrow> number \<Rightarrow> py_error + number" where
  "decay q c =
     (case py_sub q c of
        Inl err \<Rightarrow> Inl err
      | Inr d \<Rightarrow>
          (case py_add (I 1) (py_abs d) of
             Inl err \<Rightarrow> Inl err
           | Inr s \<Rightarrow> py_truediv (I 1) s))"

definition key_contribution :: "scalar \<Rightarrow> scalar option \<Rightarrow> py_error + number option" where
  "key_contribution v c =
     (case c of
        None \<Rightarrow> Inr None
      | Some w \<Rightarrow>
          (case (numeric_value v, numeric_value w) of
             (Some x, Some y) \<Rightarrow>
               if py_eq y x then Inr (Some (I 1)) else map_sum id Some (decay x y)
           | (None, None) \<Rightarrow> if v = w then Inr (Some (I 1)) else Inr None
           | _ \<Rightarrow> Inr None))"

definition feature_score :: "features \<Rightarrow> features \<Rightarrow> py_error + number" where
  "feature_score query item =
     add_contributions (I 0) (map (\<lambda>kv. key_contribution (snd kv) (map_of item (fst kv))) query)"

subsection \<open>Example data\<close>

text \<open>The scenario of two users, \<^verbatim>\<open>u1: [a, b]\<close> and \<^verbatim>\<open>u2: [a, c]\<close>.\<close>

definition two_users :: "interaction list" where
  "two_users =
     [\<lparr>user_id = ''u1'', item_id = ''a'', rating = 5\<rparr>,
      \<lparr>user_id = ''u1'', item_id = ''b'', rating = 4\<rparr>,
      \<lparr>user_id = ''u2'', item_id = ''a'', rating = 5\<rparr>,
      \<lparr>user_id = ''u2'', item_id = ''c'', rating = 3\<rparr>]"

text \<open>One user with the list \<^verbatim>\<open>[a, b, c]\<close>, and one user with a further pair \<^verbatim>\<open>[d, e]\<close>.\<close>

definition one_user :: "interaction list" where
  "one_user =
     [\<lparr>user_id = ''u1'', item_id = ''a'', rating = 5\<rparr>,
      \<lparr>user_id = ''u1'', item_id = ''b'', rating = 4\<rparr>,
      \<lparr>user_id = ''u1'', item_id = ''c'', rating = 3\<rparr>]"

definition other_user :: "interaction list" where
  "other_user =
     [\<lparr>user_id = ''u9'', item_id = ''d'', rating = 1\<rparr>,
      \<lparr>user_id = ''u9'', item_id = ''e'', rating = 2\<rparr>]"

text \<open>A store of two routes with a price, and one with a label.\<close>

definition price_store :: cb_state where
  "price_store =
     add_item (add_item (add_item cb_init ''x'' [(''price'', PInt 10)])
       ''y'' [(''price'', PInt 15)]) ''z'' [(''price'', PStr ''low'')]"

text \<open>The same interactions as \<^const>\<open>two_users\<close>, every rating replaced by 1.\<close>

definition rerated :: "interaction list" where
  "rerated = map (\<lambda>x. x\<lparr>rating := 1\<rparr>) two_users"

text \<open>A store holding an integer too large for a double.\<close>

definition big_store :: cb_state where
  "big_store = add_item cb_init ''w'' [(''price'', PInt (2 ^ 1024))]"

text \<open>A store of two routes, and a query with a NaN, as \<^verbatim>\<open>json.loads\<close> accepts it.\<close>

definition nan_store :: cb_state where
  "nan_store = add_item (add_item cb_init ''x'' [(''k'', PInt 1)]) ''y'' [(''j'', PInt 1)]"

definition nan_query :: features where
  "nan_query = [(''k'', PFloat NaN), (''j'', PInt 1)]"

section \<open>Facts about the containers\<close>

lemma update_absent: "k \<notin> fst ` set al \<Longrightarrow> AList.update k v al = al @ [(k, v)]"
  by (induction al) auto

lemma set_slice_to: "set (slice_to xs n) \<subseteq> set xs"
  by (auto simp: slice_to_def dest: in_set_takeD)

lemma slice_to_all: "int (length xs) \<le> n \<Longrightarrow> slice_to xs n = xs"
  by (simp add: slice_to_def)

lemma slice_to_Nil: "slice_to [] n = []"
  by (simp add: slice_to_def)

lemma sorted_wrt_slice_to: "sorted_wrt P xs \<Longrightarrow> sorted_wrt P (slice_to xs n)"
  by (simp add: slice_to_def)

lemma set_sorted_by_score_desc: "set (sorted_by_score_desc ps) = set ps"
  by (simp add: sorted_by_score_desc_def)

lemma length_sorted_by_score_desc: "length (sorted_by_score_desc ps) = length ps"
  by (simp add: sorted_by_score_desc_def)

lemma sorted_by_score_desc_Nil: "sorted_by_score_desc [] = []"
  by (simp add: sorted_by_score_desc_def)

lemma non_increasing_sorted_by_score_desc:
  "sorted_wrt (\<lambda>a b. snd b \<le> snd a) (sorted_by_score_desc ps)"
proof -
  have "sorted (map (\<lambda>x. - snd x) (sort_key (\<lambda>x. - snd x) ps))"
    by (rule sorted_sort_key)
  then show ?thesis
    by (simp add: sorted_by_score_desc_def sorted_wrt_map sorted_map)
qed

lemma group_interactions_snd:
  "snd (group_interactions xs (ui, ids)) = foldl register_item ids (map item_id xs)"
  by (induction xs arbitrary: ui ids) simp_all

lemma group_interactions_fst_indep:
  "fst (group_interactions xs (ui, ids)) = fst (group_interactions xs (ui, ids'))"
  by (induction xs arbitrary: ui ids ids') simp_all

lemma distinct_register_item: "distinct ids \<Longrightarrow> distinct (register_item ids i)"
  by (simp add: register_item_def)

lemma set_register_item: "set (register_item ids i) = insert i (set ids)"
  by (auto simp: register_item_def)

lemma distinct_foldl_register: "distinct ids \<Longrightarrow> distinct (foldl register_item ids xs)"
  by (induction xs arbitrary: ids) (simp_all add: distinct_register_item)

lemma set_foldl_register: "set (foldl register_item ids xs) = set ids \<union> set xs"
  by (induction xs arbitrary: ids) (auto simp: set_register_item)

lemma foldl_register_split:
  "foldl register_item ids xs = ids @ filter (\<lambda>i. i \<notin> set ids) (foldl register_item [] xs)"
proof (induction xs rule: rev_induct)
  case Nil
  show ?case by simp
next
  case (snoc x xs)
  let ?new = "foldl register_item [] xs"
  have "foldl register_item ids (xs @ [x]) = register_item (ids @ filter (\<lambda>i. i \<notin> set ids) ?new) x"
    by (simp add: snoc)
  also have "\<dots> = ids @ filter (\<lambda>i. i \<notin> set ids) (register_item ?new x)"
    unfolding register_item_def by auto
  finally show ?case by simp
qed

lemma foldl_register_idem:
  "set xs \<subseteq> set ids \<Longrightarrow> foldl register_item ids xs = ids"
  by (induction xs arbitrary: ids) (simp_all add: register_item_def)

lemma co_get_bump: "co_get (bump co key) k = co_get co k + (if k = key then 1 else 0)"
  by (simp add: bump_def co_get_def)

lemma dom_bump: "dom (bump co key) = insert key (dom co)"
  by (simp add: bump_def)

lemma count_with_foldl: "count_with a xs co = foldl bump co (pairs_with a xs)"
  by (induction xs arbitrary: co) simp_all

lemma count_pairs_foldl: "count_pairs xs co = foldl bump co (pairs_of xs)"
  by (induction xs arbitrary: co) (simp_all add: count_with_foldl)

lemma count_users_foldl: "count_users ui co = foldl bump co (pairs_of_users ui)"
  by (induction ui arbitrary: co) (auto simp: count_pairs_foldl)

lemma co_get_foldl_bump: "co_get (foldl bump co ks) k = co_get co k + int (count_list ks k)"
  by (induction ks arbitrary: co) (simp_all add: co_get_bump)

lemma dom_foldl_bump: "dom (foldl bump co ks) = dom co \<union> set ks"
  by (induction ks arbitrary: co) (auto simp: dom_bump)

lemma co_get_empty: "co_get Map.empty k = 0"
  by (simp add: co_get_def)

lemma co_get_count_users:
  "co_get (count_users ui co) k = co_get co k + co_get (count_users ui Map.empty) k"
  by (simp add: count_users_foldl co_get_foldl_bump co_get_empty)

lemma dom_count_users: "dom (count_users ui co) = dom co \<union> dom (count_users ui Map.empty)"
  by (simp add: count_users_foldl dom_foldl_bump)

lemma sorted_pair_le: "fst (sorted_pair a b) \<le> snd (sorted_pair a b)"
  by (auto simp: sorted_pair_def not_less less_imp_le)

lemma sorted_pair_commute: "sorted_pair a b = sorted_pair b a"
  by (auto simp: sorted_pair_def)

lemma pairs_with_canonical: "k \<in> set (pairs_with a xs) \<Longrightarrow> fst k \<le> snd k"
  by (induction xs) (auto simp: sorted_pair_le)

lemma pairs_of_canonical: "k \<in> set (pairs_of xs) \<Longrightarrow> fst k \<le> snd k"
  by (induction xs) (auto dest: pairs_with_canonical)

lemma pairs_of_users_canonical: "k \<in> set (pairs_of_users ui) \<Longrightarrow> fst k \<le> snd k"
  by (induction ui) (auto dest: pairs_of_canonical)

lemma build_row_append:
  "distinct ids \<Longrightarrow> set ids \<inter> fst ` set row = {} \<Longrightarrow>
   build_row co item ids row = row @ full_row co ids item"
proof (induction ids arbitrary: row)
  case Nil
  show ?case by (simp add: full_row_def)
next
  case (Cons a ids)
  show ?case
  proof (cases "item = a")
    case True
    with Cons show ?thesis by (simp add: full_row_def)
  next
    case False
    have "a \<notin> fst ` set row" using Cons.prems by auto
    then have u: "AList.update a v row = row @ [(a, v)]" for v
      by (rule update_absent)
    have "set ids \<inter> fst ` set (row @ [(a, co_get co (sorted_pair item a))]) = {}"
      using Cons.prems by auto
    with Cons.IH Cons.prems False u show ?thesis
      by (auto simp add: full_row_def)
  qed
qed

lemma build_row_full: "distinct ids \<Longrightarrow> build_row co item ids [] = full_row co ids item"
  using build_row_append [of ids "[]" co item] by simp

lemma build_similarity_apply:
  "build_similarity co ids todo sim x =
     (if x \<in> set todo then Some (build_row co x ids []) else sim x)"
  by (induction todo arbitrary: sim) auto

lemma fit_item_ids: "item_ids (fit st S) = foldl register_item (item_ids st) (map item_id S)"
proof (cases "group_interactions S ([], item_ids st)")
  case (Pair ui ids)
  with group_interactions_snd [of S "[]" "item_ids st"] show ?thesis
    by (simp add: fit_def Let_def)
qed

lemma fit_co_occurrence:
  "co_occurrence (fit st S) = count_users (user_items_of S) (co_occurrence st)"
proof (cases "group_interactions S ([], item_ids st)")
  case (Pair ui ids)
  with group_interactions_fst_indep [of S "[]" "item_ids st" "[]"] show ?thesis
    by (simp add: fit_def Let_def user_items_of_def)
qed

lemma fit_item_similarity:
  "item_similarity (fit st S) x =
     (if x \<in> set (item_ids (fit st S))
      then Some (build_row (co_occurrence (fit st S)) x (item_ids (fit st S)) [])
      else item_similarity st x)"
proof (cases "group_interactions S ([], item_ids st)")
  case (Pair ui ids)
  then show ?thesis
    by (simp add: fit_def Let_def build_similarity_apply)
qed

lemma cf_inv_init: "cf_inv cf_init"
  by (simp add: cf_inv_def cf_init_def)

lemma cf_inv_fit:
  assumes "cf_inv st"
  shows "cf_inv (fit st S)"
proof -
  have d: "distinct (item_ids (fit st S))"
    using assms by (simp add: fit_item_ids cf_inv_def distinct_foldl_register)
  have sub: "set (item_ids st) \<subseteq> set (item_ids (fit st S))"
    by (simp add: fit_item_ids set_foldl_register)
  have sim: "item_similarity (fit st S) x =
        (if x \<in> set (item_ids (fit st S))
         then Some (full_row (co_occurrence (fit st S)) (item_ids (fit st S)) x) else None)" for x
  proof (cases "x \<in> set (item_ids (fit st S))")
    case True
    then show ?thesis by (simp add: fit_item_similarity build_row_full [OF d])
  next
    case False
    with sub have "x \<notin> set (item_ids st)" by auto
    with assms have "item_similarity st x = None" by (simp add: cf_inv_def)
    with False show ?thesis by (simp add: fit_item_similarity)
  qed
  have keys: "fst k \<le> snd k" if "k \<in> dom (co_occurrence (fit st S))" for k
  proof -
    from that have "k \<in> dom (co_occurrence st) \<or> k \<in> set (pairs_of_users (user_items_of S))"
      by (simp add: fit_co_occurrence count_users_foldl dom_foldl_bump)
    then show ?thesis
      using assms by (auto simp: cf_inv_def dest: pairs_of_users_canonical)
  qed
  from d sim keys show ?thesis
    unfolding cf_inv_def by blast
qed

lemma fitted_inv: "fitted st \<Longrightarrow> cf_inv st"
  by (induction rule: fitted.induct) (simp_all add: cf_inv_init cf_inv_fit)

lemma map_of_full_row:
  "map_of (full_row co ids item) b =
     (if b \<in> set ids \<and> b \<noteq> item then Some (co_get co (sorted_pair item b)) else None)"
  by (auto simp: full_row_def map_of_map_restrict restrict_map_def)

lemma keys_full_row: "fst ` set (full_row co ids item) = {b \<in> set ids. b \<noteq> item}"
  by (auto simp: full_row_def image_iff)

lemma distinct_full_row: "distinct ids \<Longrightarrow> distinct (map fst (full_row co ids item))"
  by (simp add: full_row_def comp_def)

lemma similarity_inv:
  "cf_inv st \<Longrightarrow> similarity st a b =
     (if a \<in> set (item_ids st) \<and> b \<in> set (item_ids st) \<and> a \<noteq> b
      then Some (co_get (co_occurrence st) (sorted_pair a b)) else None)"
  by (auto simp: similarity_def cf_inv_def map_of_full_row)

lemma keys_add_row:
  "fst ` set (add_row h row scores) = fst ` set scores \<union> {b \<in> fst ` set row. b \<notin> set h}"
proof (induction row arbitrary: scores)
  case Nil
  show ?case by simp
next
  case (Cons p row)
  obtain b s where p: "p = (b, s)" by (cases p)
  show ?case
    unfolding p by (auto simp: Cons dom_update)
qed

lemma distinct_add_row:
  "distinct (map fst scores) \<Longrightarrow> distinct (map fst (add_row h row scores))"
proof (induction row arbitrary: scores)
  case Nil
  then show ?case by simp
next
  case (Cons p row)
  obtain b s where p: "p = (b, s)" by (cases p)
  from Cons.prems show ?case
    unfolding p by (auto intro!: Cons.IH distinct_update)
qed

lemma keys_accumulate:
  "fst ` set (accumulate t h hs scores) =
     fst ` set scores \<union>
     {b. b \<notin> set h \<and> (\<exists>x \<in> set hs. \<exists>row. t x = Some row \<and> b \<in> fst ` set row)}"
proof (induction hs arbitrary: scores)
  case Nil
  show ?case by simp
next
  case (Cons x hs)
  show ?case
  proof (cases "t x")
    case None
    then show ?thesis by (auto simp: Cons)
  next
    case (Some row)
    then show ?thesis by (simp add: Cons keys_add_row) blast
  qed
qed

lemma distinct_accumulate:
  "distinct (map fst scores) \<Longrightarrow> distinct (map fst (accumulate t h hs scores))"
  by (induction hs arbitrary: scores) (auto split: option.splits intro: distinct_add_row)

lemma accumulate_unknown:
  "\<forall>x \<in> set hs. t x = None \<Longrightarrow> accumulate t h hs scores = scores"
  by (induction hs arbitrary: scores) simp_all

lemma accumulate_filter_known:
  "accumulate t h hs scores = accumulate t h (filter (\<lambda>x. t x \<noteq> None) hs) scores"
  by (induction hs arbitrary: scores) (auto split: option.splits)

lemma keys_candidate_scores:
  "fst ` set (candidate_scores st h) \<inter> set h = {}"
  by (auto simp: candidate_scores_def keys_accumulate)

lemma set_recommend_subset: "set (recommend st h n) \<subseteq> set (candidate_scores st h)"
  using set_slice_to [of "sorted_items st h" n]
  by (simp add: recommend_def sorted_items_def set_sorted_by_score_desc)

lemma candidate_keys_fitted:
  assumes inv: "cf_inv st" and known: "\<exists>x \<in> set h. x \<in> set (item_ids st)"
  shows "fst ` set (candidate_scores st h) = {b \<in> set (item_ids st). b \<notin> set h}"
proof -
  from known obtain x where x: "x \<in> set h" "x \<in> set (item_ids st)" by blast
  have row: "item_similarity st y =
      (if y \<in> set (item_ids st) then Some (full_row (co_occurrence st) (item_ids st) y) else None)" for y
    using inv by (simp add: cf_inv_def)
  show ?thesis
  proof (intro set_eqI iffI)
    fix b assume "b \<in> fst ` set (candidate_scores st h)"
    then obtain y r where "b \<notin> set h" "y \<in> set h" "item_similarity st y = Some r" "b \<in> fst ` set r"
      unfolding candidate_scores_def keys_accumulate by auto
    then show "b \<in> {b \<in> set (item_ids st). b \<notin> set h}"
      using row [of y] keys_full_row [of "co_occurrence st" "item_ids st" y]
      by (auto split: if_splits)
  next
    fix b assume b: "b \<in> {b \<in> set (item_ids st). b \<notin> set h}"
    with x have "b \<noteq> x" by auto
    with b have "b \<in> fst ` set (full_row (co_occurrence st) (item_ids st) x)"
      unfolding keys_full_row by simp
    with b x row [of x] show "b \<in> fst ` set (candidate_scores st h)"
      unfolding candidate_scores_def keys_accumulate by auto
  qed
qed

lemma distinct_candidate_scores: "distinct (map fst (candidate_scores st h))"
  by (simp add: candidate_scores_def distinct_accumulate)

lemma length_candidate_scores:
  assumes inv: "cf_inv st" and known: "\<exists>x \<in> set h. x \<in> set (item_ids st)"
  shows "length (candidate_scores st h) = length (filter (\<lambda>b. b \<notin> set h) (item_ids st))"
proof -
  have "length (candidate_scores st h) = card (fst ` set (candidate_scores st h))"
    using distinct_card [OF distinct_candidate_scores [of st h]] by simp
  also have "\<dots> = card (set (filter (\<lambda>b. b \<notin> set h) (item_ids st)))"
    by (simp add: candidate_keys_fitted [OF inv known])
  also have "\<dots> = length (filter (\<lambda>b. b \<notin> set h) (item_ids st))"
  proof (rule distinct_card)
    from inv show "distinct (filter (\<lambda>b. b \<notin> set h) (item_ids st))"
      by (simp add: cf_inv_def)
  qed
  finally show ?thesis .
qed

lemma dict_get_update:
  "dict_get (AList.update k v al) b d = (if b = k then v else dict_get al b d)"
  by (simp add: dict_get_def update_conv')

lemma dict_get_add_row:
  "distinct (map fst row) \<Longrightarrow>
   dict_get (add_row h row scores) b 0 =
     dict_get scores b 0 + (if b \<in> set h then 0 else dict_get row b 0)"
proof (induction row arbitrary: scores)
  case Nil
  show ?case by (simp add: dict_get_def)
next
  case (Cons p row)
  obtain c s where p: "p = (c, s)" by (cases p)
  from Cons.prems have c: "c \<notin> fst ` set row" and d: "distinct (map fst row)"
    by (simp_all add: p)
  from c have none: "map_of row c = None"
    by (simp add: map_of_eq_None_iff)
  show ?case
    unfolding p using none
    by (simp add: Cons.IH [OF d] dict_get_update) (simp add: dict_get_def)
qed

lemma dict_get_accumulate:
  assumes "\<And>x row. t x = Some row \<Longrightarrow> distinct (map fst row)"
  shows "dict_get (accumulate t h hs scores) b 0 =
     dict_get scores b 0 +
     (if b \<in> set h then 0
      else (\<Sum>x\<leftarrow>hs. case t x of None \<Rightarrow> 0 | Some row \<Rightarrow> dict_get row b 0))"
proof (induction hs arbitrary: scores)
  case Nil
  show ?case by simp
next
  case (Cons x hs)
  show ?case
  proof (cases "t x")
    case None
    then show ?thesis by (simp add: Cons.IH)
  next
    case (Some row)
    then have "distinct (map fst row)" by (rule assms)
    with Some show ?thesis
      by (simp add: Cons.IH dict_get_add_row)
  qed
qed

lemma dict_get_full_row:
  "dict_get (full_row co ids x) b 0 =
     (if b \<in> set ids \<and> b \<noteq> x then co_get co (sorted_pair x b) else 0)"
  by (simp add: dict_get_def map_of_full_row)

lemma candidate_score_fitted:
  assumes inv: "cf_inv st" and b: "b \<in> set (item_ids st)" "b \<notin> set h"
  shows "dict_get (candidate_scores st h) b 0 =
     (\<Sum>x\<leftarrow>filter (\<lambda>x. x \<in> set (item_ids st)) h. co_get (co_occurrence st) (sorted_pair x b))"
proof -
  have row: "item_similarity st y =
      (if y \<in> set (item_ids st) then Some (full_row (co_occurrence st) (item_ids st) y) else None)" for y
    using inv by (simp add: cf_inv_def)
  have dist: "distinct (map fst r)" if "item_similarity st y = Some r" for y r
    using that row [of y] inv by (auto simp: cf_inv_def distinct_full_row split: if_splits)
  have summand: "(case item_similarity st x of None \<Rightarrow> 0 | Some r \<Rightarrow> dict_get r b 0) =
      (if x \<in> set (item_ids st) then co_get (co_occurrence st) (sorted_pair x b) else 0)"
    if "x \<in> set h" for x
    using that b by (auto simp: row dict_get_full_row)
  have "dict_get (candidate_scores st h) b 0 =
      (\<Sum>x\<leftarrow>h. case item_similarity st x of None \<Rightarrow> 0 | Some r \<Rightarrow> dict_get r b 0)"
    unfolding candidate_scores_def
    using dict_get_accumulate [of "item_similarity st" h h "[]" b] dist b
    by (simp add: dict_get_def)
  also have "\<dots> = (\<Sum>x\<leftarrow>h. if x \<in> set (item_ids st)
      then co_get (co_occurrence st) (sorted_pair x b) else 0)"
    by (rule arg_cong [where f = sum_list], rule map_cong) (simp_all add: summand)
  also have "\<dots> = (\<Sum>x\<leftarrow>filter (\<lambda>x. x \<in> set (item_ids st)) h.
      co_get (co_occurrence st) (sorted_pair x b))"
    by (simp add: sum_list_map_filter')
  finally show ?thesis .
qed

lemma in_dict_get: "distinct (map fst d) \<Longrightarrow> (k, v) \<in> set d \<Longrightarrow> dict_get d k dflt = v"
  by (simp add: dict_get_def)

lemma dom_item_similarity: "cf_inv st \<Longrightarrow> (item_similarity st x \<noteq> None) = (x \<in> set (item_ids st))"
  by (simp add: cf_inv_def)

lemma slice_to_nonpositive:
  "n \<le> 0 \<Longrightarrow> slice_to xs n = (if n = 0 then [] else take (length xs - nat (- n)) xs)"
  by (auto simp: slice_to_def nat_diff_distrib' intro: arg_cong [where f = "\<lambda>k. take k xs"])

lemma score_step_contribution:
  "score_step item kv score =
     add_contributions score [key_contribution (snd kv) (map_of item (fst kv))]"
proof (cases "map_of item (fst kv)")
  case None
  then show ?thesis by (simp add: score_step_def key_contribution_def)
next
  case (Some w)
  then show ?thesis
    by (cases w; cases "snd kv")
       (auto simp: score_step_def key_contribution_def scalar_eq_def numerical_similarity_def
          decay_def split: sum.splits)
qed

lemma add_contributions_Cons:
  "add_contributions score (c # rest) =
     (case add_contributions score [c] of
        Inl err \<Rightarrow> Inl err
      | Inr score' \<Rightarrow> add_contributions score' rest)"
  by (cases "(score, [c])" rule: add_contributions.cases) (auto split: sum.splits)

lemma score_loop_contributions:
  "score_loop query item score =
     add_contributions score (map (\<lambda>kv. key_contribution (snd kv) (map_of item (fst kv))) query)"
proof (induction query arbitrary: score)
  case Nil
  show ?case by simp
next
  case (Cons kv rest)
  show ?case
    by (simp add: Cons score_step_contribution
          add_contributions_Cons [of score _ "map _ rest"] split: sum.splits)
qed

lemma calculate_similarity_feature_score:
  "calculate_similarity query item = feature_score query item"
  by (simp add: calculate_similarity_def feature_score_def score_loop_contributions)

lemma score_items_sound:
  "score_items q its acc = Inr scores \<Longrightarrow> p \<in> set scores \<Longrightarrow>
     p \<in> set acc \<or> (\<exists>fs. (fst p, fs) \<in> set its \<and> calculate_similarity q fs = Inr (snd p))"
proof (induction its arbitrary: acc)
  case Nil
  then show ?case by simp
next
  case (Cons it its)
  obtain iid fs where it: "it = (iid, fs)" by (cases it)
  from Cons.prems(1) obtain s where s: "calculate_similarity q fs = Inr s"
    and rest: "score_items q its (acc @ [(iid, s)]) = Inr scores"
    by (auto simp: it split: sum.splits)
  from Cons.IH [OF rest Cons.prems(2)] s show ?case
    by (auto simp: it)
qed

lemma score_items_keys:
  "score_items q its acc = Inr scores \<Longrightarrow> map fst scores = map fst acc @ map fst its"
proof (induction its arbitrary: acc)
  case Nil
  then show ?case by simp
next
  case (Cons it its)
  obtain iid fs where it: "it = (iid, fs)" by (cases it)
  from Cons.prems obtain s where rest: "score_items q its (acc @ [(iid, s)]) = Inr scores"
    by (auto simp: it split: sum.splits)
  from Cons.IH [OF rest] show ?case by (simp add: it)
qed

lemma all_scores_keys:
  "all_scores st q = Inr scores \<Longrightarrow> map fst scores = map fst (items st)"
  using score_items_keys [of q "items st" "[]" scores] by (simp add: all_scores_def)

lemma all_scores_length: "all_scores st q = Inr scores \<Longrightarrow> length scores = length (items st)"
  using all_scores_keys [of st q scores] by (metis length_map)

lemma mset_insert_desc: "mset (insert_desc x ys) = add_mset x (mset ys)"
  by (induction ys) simp_all

lemma mset_stable_desc: "mset (stable_desc xs) = mset xs"
  unfolding stable_desc_def by (induction xs) (simp_all add: mset_insert_desc)

lemma python_sort_stable_desc: "python_sort stable_desc"
  by (simp add: python_sort_def mset_stable_desc)

lemma python_sort_set: "python_sort srt \<Longrightarrow> set (srt xs) = set xs"
  unfolding python_sort_def by (metis set_mset_mset)

lemma python_sort_length: "python_sort srt \<Longrightarrow> length (srt xs) = length xs"
  unfolding python_sort_def by (metis size_mset)

lemma python_sort_total: "python_sort srt \<Longrightarrow> \<not> has_nan xs \<Longrightarrow> srt xs = stable_desc xs"
  unfolding python_sort_def by blast

lemma py_ge_total: "\<not> is_nan a \<Longrightarrow> \<not> is_nan b \<Longrightarrow> \<not> py_lt a b \<Longrightarrow> py_ge a b"
  by (auto simp: py_lt_def py_ge_def py_eq_def prod_eq_iff)

lemma py_lt_ge: "py_lt a b \<Longrightarrow> py_ge b a"
  by (simp add: py_ge_def)

lemma py_ge_trans: "py_ge a b \<Longrightarrow> py_ge b c \<Longrightarrow> py_ge a c"
  by (auto simp: py_lt_def py_ge_def py_eq_def)

lemma py_ge_nan: "is_nan a \<Longrightarrow> \<not> py_ge a b \<and> \<not> py_ge b a"
  by (simp add: py_lt_def py_ge_def py_eq_def)

lemma set_insert_desc: "set (insert_desc x ys) = insert x (set ys)"
  by (induction ys) auto

lemma sorted_insert_desc:
  assumes "sorted_wrt (\<lambda>a b. py_ge (snd a) (snd b)) ys"
    and "\<not> is_nan (snd x)" and "\<forall>y \<in> set ys. \<not> is_nan (snd y)"
  shows "sorted_wrt (\<lambda>a b. py_ge (snd a) (snd b)) (insert_desc x ys)"
  using assms
proof (induction ys)
  case Nil
  then show ?case by simp
next
  case (Cons y ys)
  show ?case
  proof (cases "py_lt (snd x) (snd y)")
    case True
    with Cons show ?thesis
      by (auto simp: set_insert_desc py_lt_ge)
  next
    case False
    with Cons.prems have xy: "py_ge (snd x) (snd y)"
      by (simp add: py_ge_total)
    with Cons.prems show ?thesis
      by (auto simp: False intro: py_ge_trans)
  qed
qed

lemma set_stable_desc: "set (stable_desc xs) = set xs"
  using mset_stable_desc [of xs] by (metis set_mset_mset)

lemma sorted_stable_desc:
  "\<not> has_nan xs \<Longrightarrow> sorted_wrt (\<lambda>a b. py_ge (snd a) (snd b)) (stable_desc xs)"
proof (induction xs)
  case Nil
  show ?case by (simp add: stable_desc_def)
next
  case (Cons x xs)
  from Cons.prems have x: "\<not> is_nan (snd x)" and xs: "\<not> has_nan xs"
    by (simp_all add: has_nan_def)
  from xs have "\<forall>y \<in> set (stable_desc xs). \<not> is_nan (snd y)"
    by (simp add: set_stable_desc has_nan_def list_ex_iff)
  with Cons.IH [OF xs] x have "sorted_wrt (\<lambda>a b. py_ge (snd a) (snd b)) (insert_desc x (stable_desc xs))"
    by (intro sorted_insert_desc)
  then show ?case by (simp add: stable_desc_def)
qed

lemma sorted_wrt_two_elements:
  "sorted_wrt P xs \<Longrightarrow> x \<in> set xs \<Longrightarrow> y \<in> set xs \<Longrightarrow> x \<noteq> y \<Longrightarrow> P x y \<or> P y x"
  by (induction xs) auto

lemma fit_co_get:
  "co_get (co_occurrence (fit st S)) k =
     co_get (co_occurrence st) k + co_get (co_occurrence (fit cf_init S)) k"
proof -
  have "co_occurrence (fit cf_init S) = count_users (user_items_of S) Map.empty"
    by (simp add: fit_co_occurrence cf_init_def)
  then show ?thesis
    using co_get_count_users [of "user_items_of S" "co_occurrence st" k]
    by (simp add: fit_co_occurrence)
qed

lemma fit_item_ids_append:
  "item_ids (fit st S) =
     item_ids st @ filter (\<lambda>i. i \<notin> set (item_ids st)) (item_ids (fit cf_init S))"
proof -
  have "item_ids (fit cf_init S) = foldl register_item [] (map item_id S)"
    by (simp add: fit_item_ids cf_init_def)
  then show ?thesis
    using foldl_register_split [of "item_ids st" "map item_id S"]
    by (simp add: fit_item_ids)
qed

lemma fit_Nil_fitted:
  assumes "cf_inv st"
  shows "fit st [] = st"
proof (rule cf_state.equality)
  show ids: "item_ids (fit st []) = item_ids st"
    by (simp add: fit_item_ids)
  show co: "co_occurrence (fit st []) = co_occurrence st"
    by (simp add: fit_co_occurrence user_items_of_def)
  have inv': "cf_inv (fit st [])" using assms by (rule cf_inv_fit)
  show "item_similarity (fit st []) = item_similarity st"
  proof (rule ext)
    fix x
    from inv' have "item_similarity (fit st []) x =
        (if x \<in> set (item_ids st) then Some (full_row (co_occurrence st) (item_ids st) x) else None)"
      unfolding cf_inv_def ids co by blast
    also from assms have "\<dots> = item_similarity st x"
      unfolding cf_inv_def by simp
    finally show "item_similarity (fit st []) x = item_similarity st x" .
  qed
  show "cf_state.more (fit st []) = cf_state.more st"
    by simp
qed


section \<open>Properties of the ranking\<close>

text \<open>
  C6 (monotonic score ordering). The claim: every sequence returned by \<^verbatim>\<open>recommend\<close>
  and by \<^verbatim>\<open>find_similar\<close>, for every input, is sorted non-increasing by score. It fails
  for \<^verbatim>\<open>find_similar\<close> when a score is NaN: with the query value NaN under the key k,
  the item x scores NaN and the item y scores 1; NaN is neither greater than or equal to 1
  nor 1 to NaN, so no arrangement of the two that a sort can return is non-increasing.
\<close>

theorem nan_order_counterexample:
  "all_scores nan_store nan_query = Inr [(''x'', F NaN), (''y'', I 1)] \<and>
   find_similar stable_desc nan_store nan_query 5 = Inr [(''x'', F NaN), (''y'', I 1)] \<and>
   \<not> py_ge (F NaN) (I 1) \<and>
   \<not> (\<exists>srt res. python_sort srt \<and> find_similar srt nan_store nan_query 5 = Inr res \<and>
          sorted_wrt (\<lambda>a b. py_ge (snd a) (snd b)) res)"
proof -
  have s: "all_scores nan_store nan_query = Inr [(''x'', F NaN), (''y'', I 1)]"
    by code_simp
  have d: "find_similar stable_desc nan_store nan_query 5 = Inr [(''x'', F NaN), (''y'', I 1)]"
    by code_simp
  have n: "\<not> py_ge (F NaN) (I 1)"
    by (simp add: py_ge_nan)
  have "\<not> sorted_wrt (\<lambda>a b. py_ge (snd a) (snd b)) res"
    if srt: "python_sort srt" and res: "find_similar srt nan_store nan_query 5 = Inr res"
    for srt res
  proof
    assume sorted: "sorted_wrt (\<lambda>a b. py_ge (snd a) (snd b)) res"
    let ?scores = "[(''x'', F NaN), (''y'', I 1)]"
    have "length (srt ?scores) = 2"
      using python_sort_length [OF srt, of ?scores] by simp
    with res s have "res = srt ?scores"
      by (simp add: find_similar_def slice_to_def)
    then have "set res = set ?scores"
      by (simp add: python_sort_set [OF srt])
    then have "(''x'', F NaN) \<in> set res" "(''y'', I 1) \<in> set res"
      by simp_all
    from sorted_wrt_two_elements [OF sorted this]
    have "py_ge (F NaN) (I 1) \<or> py_ge (I 1) (F NaN)"
      by simp
    then show False
      using py_ge_nan [of "F NaN" "I 1"] by simp
  qed
  with s d n show ?thesis by blast
qed

text \<open>
  C6, amended. Every sequence returned by \<^verbatim>\<open>recommend\<close>, in every state and for every
  history and bound, is sorted non-increasing by score. Every sequence returned by
  \<^verbatim>\<open>find_similar\<close> is sorted non-increasing by score whenever no score of a stored item
  is NaN: it is then the stable descending arrangement of the scores, cut at the bound.
\<close>

theorem results_non_increasing:
  "sorted_wrt (\<lambda>a b. snd b \<le> snd a) (recommend st user_history n) \<and>
   (python_sort srt \<and> all_scores cb query_features = Inr scores \<and> \<not> has_nan scores \<longrightarrow>
      find_similar srt cb query_features m = Inr (slice_to (stable_desc scores) m) \<and>
      sorted_wrt (\<lambda>a b. py_ge (snd a) (snd b)) (slice_to (stable_desc scores) m))"
proof -
  have r: "sorted_wrt (\<lambda>a b. snd b \<le> snd a) (recommend st user_history n)"
    by (simp add: recommend_def sorted_items_def sorted_wrt_slice_to
        non_increasing_sorted_by_score_desc)
  have f: "find_similar srt cb query_features m = Inr (slice_to (stable_desc scores) m) \<and>
      sorted_wrt (\<lambda>a b. py_ge (snd a) (snd b)) (slice_to (stable_desc scores) m)"
    if "python_sort srt" "all_scores cb query_features = Inr scores" "\<not> has_nan scores"
    using that
    by (simp add: find_similar_def python_sort_total sorted_wrt_slice_to sorted_stable_desc)
  from r f show ?thesis by blast
qed

theorem results_non_increasing_witness:
  "python_sort stable_desc \<and>
   all_scores price_store [(''price'', PInt 10)] =
     Inr [(''x'', I 1), (''y'', F (Finite 6004799503160661 (- 55))), (''z'', I 0)] \<and>
   \<not> has_nan [(''x'', I 1), (''y'', F (Finite 6004799503160661 (- 55))), (''z'', I 0)] \<and>
   find_similar stable_desc price_store [(''price'', PInt 10)] 2 =
     Inr [(''x'', I 1), (''y'', F (Finite 6004799503160661 (- 55)))] \<and>
   py_ge (I 1) (F (Finite 6004799503160661 (- 55)))"
proof -
  let ?scores = "[(''x'', I 1), (''y'', F (Finite 6004799503160661 (- 55))), (''z'', I 0)]"
  have p: "python_sort stable_desc"
    by (rule python_sort_stable_desc)
  have s: "all_scores price_store [(''price'', PInt 10)] = Inr ?scores"
    by code_simp
  have h: "\<not> has_nan ?scores"
    by (simp add: has_nan_def)
  have d: "slice_to (stable_desc ?scores) 2 = [(''x'', I 1), (''y'', F (Finite 6004799503160661 (- 55)))]"
    by code_simp
  from results_non_increasing [of cf_init "[]" 0 stable_desc price_store "[(''price'', PInt 10)]" ?scores 2]
       p s h d
  show ?thesis by simp
qed

text \<open>
  C7 (self-exclusion). In every state, for every history and every bound, no item
  identifier returned by \<^verbatim>\<open>recommend\<close> is an element of the history.
\<close>

theorem recommend_excludes_history:
  "fst ` set (recommend st user_history n) \<inter> set user_history = {}"
  using set_recommend_subset [of st user_history n] keys_candidate_scores [of st user_history]
  by blast

section \<open>The rating field\<close>

text \<open>
  C8 (rating noninterference). Two interaction sequences that agree on the user and the item
  of every record, and so differ at most in the ratings, are fitted to the same state from
  any starting state (item list, co-occurrence table and similarity table are equal), and
  \<^verbatim>\<open>recommend\<close> then answers the same for every history and bound.
\<close>

theorem rating_unused:
  assumes "map user_id S1 = map user_id S2" and "map item_id S1 = map item_id S2"
  shows "fit st S1 = fit st S2 \<and>
         recommend (fit st S1) user_history n = recommend (fit st S2) user_history n"
proof -
  have "group_interactions S1 g = group_interactions S2 g" for g
    using assms
  proof (induction S1 arbitrary: S2 g)
    case Nil
    then show ?case by simp
  next
    case (Cons x xs)
    then obtain y ys where S2: "S2 = y # ys" by (cases S2) auto
    obtain ui ids where g: "g = (ui, ids)" by (cases g)
    from Cons.prems have "user_id x = user_id y" "item_id x = item_id y"
      "map user_id xs = map user_id ys" "map item_id xs = map item_id ys"
      by (simp_all add: S2)
    then show ?case
      by (simp add: S2 g Cons.IH)
  qed
  then have "fit st S1 = fit st S2"
    by (simp add: fit_def)
  then show ?thesis by simp
qed

theorem rating_unused_witness:
  "map user_id two_users = map user_id rerated \<and> map item_id two_users = map item_id rerated \<and>
   two_users \<noteq> rerated \<and>
   fit cf_init two_users = fit cf_init rerated \<and>
   recommend (fit cf_init two_users) [''a''] 2 = recommend (fit cf_init rerated) [''a''] 2"
proof -
  have u: "map user_id two_users = map user_id rerated"
    by (simp add: two_users_def rerated_def)
  have i: "map item_id two_users = map item_id rerated"
    by (simp add: two_users_def rerated_def)
  have d: "two_users \<noteq> rerated"
    by (simp add: two_users_def rerated_def)
  from u i d rating_unused [OF u i, of cf_init "[''a'']" 2] show ?thesis by simp
qed

section \<open>Calling fit more than once\<close>

text \<open>
  C1 (retraining). The claim: \<^verbatim>\<open>fit(S1)\<close> followed by \<^verbatim>\<open>fit(S2)\<close> leaves the item set,
  the co-occurrence table and the similarity table as \<^verbatim>\<open>fit(S2)\<close> alone on a fresh
  recommender leaves them, and \<^verbatim>\<open>fit([])\<close> clears all state. It fails: after fitting the
  two-user scenario, \<^verbatim>\<open>fit([])\<close> keeps the three items, the count of the pair (a, b) and
  the similarity of a and b, where a fresh recommender fitted with \<^verbatim>\<open>[]\<close> has none of
  them; fitting a second user set afterwards keeps the earlier items in front of the new
  ones.
\<close>

theorem fit_replace_counterexample:
  "item_ids (fit (fit cf_init two_users) []) = [''a'', ''b'', ''c''] \<and>
   item_ids (fit cf_init []) = [] \<and>
   co_occurrence (fit (fit cf_init two_users) []) (''a'', ''b'') = Some 1 \<and>
   co_occurrence (fit cf_init []) (''a'', ''b'') = None \<and>
   similarity (fit (fit cf_init two_users) []) ''a'' ''b'' = Some 1 \<and>
   similarity (fit cf_init []) ''a'' ''b'' = None \<and>
   item_ids (fit (fit cf_init two_users) other_user) = [''a'', ''b'', ''c'', ''d'', ''e''] \<and>
   item_ids (fit cf_init other_user) = [''d'', ''e'']"
  by code_simp

text \<open>
  C1, amended. \<^verbatim>\<open>fit\<close> accumulates. For every fitted state and every interaction
  sequence S, after \<^verbatim>\<open>fit(S)\<close> the item list is the previous item list followed by the
  items of S that were not registered yet, in first-seen order; every co-occurrence count
  (read with default 0) is the previous count plus the count that S alone gives on a fresh
  recommender; the similarity table is rebuilt from the accumulated counts, with an entry
  for exactly the ordered pairs of distinct registered items; and \<^verbatim>\<open>fit([])\<close> leaves
  the state unchanged.
\<close>

theorem fit_accumulates:
  assumes "fitted st"
  shows "item_ids (fit st S) =
           item_ids st @ filter (\<lambda>i. i \<notin> set (item_ids st)) (item_ids (fit cf_init S)) \<and>
         (\<forall>k. co_get (co_occurrence (fit st S)) k =
                co_get (co_occurrence st) k + co_get (co_occurrence (fit cf_init S)) k) \<and>
         (\<forall>a b. similarity (fit st S) a b =
                (if a \<in> set (item_ids (fit st S)) \<and> b \<in> set (item_ids (fit st S)) \<and> a \<noteq> b
                 then Some (co_get (co_occurrence (fit st S)) (sorted_pair a b)) else None)) \<and>
         fit st [] = st"
proof -
  have inv: "cf_inv st" using assms by (rule fitted_inv)
  then have inv': "cf_inv (fit st S)" by (rule cf_inv_fit)
  show ?thesis
    using fit_item_ids_append [of st S] fit_co_get [of st S]
      similarity_inv [OF inv'] fit_Nil_fitted [OF inv]
    by simp
qed

theorem fit_accumulates_witness:
  "fitted (fit cf_init two_users) \<and>
   item_ids (fit cf_init two_users) = [''a'', ''b'', ''c''] \<and>
   item_ids (fit cf_init one_user) = [''a'', ''b'', ''c''] \<and>
   item_ids (fit cf_init other_user) = [''d'', ''e''] \<and>
   item_ids (fit (fit cf_init two_users) other_user) = [''a'', ''b'', ''c'', ''d'', ''e''] \<and>
   co_get (co_occurrence (fit cf_init two_users)) (''a'', ''b'') = 1 \<and>
   co_get (co_occurrence (fit cf_init one_user)) (''a'', ''b'') = 1 \<and>
   co_get (co_occurrence (fit (fit cf_init two_users) one_user)) (''a'', ''b'') = 2 \<and>
   similarity (fit (fit cf_init two_users) one_user) ''b'' ''a'' = Some 2 \<and>
   fit (fit cf_init two_users) [] = fit cf_init two_users"
proof -
  have f: "fitted (fit cf_init two_users)"
    by (rule fitted_fit [OF fitted_init])
  have i1: "item_ids (fit cf_init two_users) = [''a'', ''b'', ''c'']"
    by code_simp
  have i2: "item_ids (fit cf_init one_user) = [''a'', ''b'', ''c'']"
    by code_simp
  have i3: "item_ids (fit cf_init other_user) = [''d'', ''e'']"
    by code_simp
  have c1: "co_get (co_occurrence (fit cf_init two_users)) (''a'', ''b'') = 1"
    by code_simp
  have c2: "co_get (co_occurrence (fit cf_init one_user)) (''a'', ''b'') = 1"
    by code_simp
  have sp: "sorted_pair ''b'' ''a'' = (''a'', ''b'')"
    by code_simp
  from fit_accumulates [OF f, of other_user] fit_accumulates [OF f, of one_user]
       f i1 i2 i3 c1 c2 sp
  show ?thesis by simp
qed

text \<open>
  C2 (idempotence). The claim: \<^verbatim>\<open>fit(S)\<close> twice in succession yields the same similarity
  table and co-occurrence counts as \<^verbatim>\<open>fit(S)\<close> once. It fails: in the two-user scenario
  the count of the pair (a, b) and the similarity of a and b are 1 after one call and 2
  after the second.
\<close>

theorem fit_twice_counterexample:
  "similarity (fit cf_init two_users) ''a'' ''b'' = Some 1 \<and>
   similarity (fit (fit cf_init two_users) two_users) ''a'' ''b'' = Some 2 \<and>
   co_occurrence (fit cf_init two_users) (''a'', ''b'') = Some 1 \<and>
   co_occurrence (fit (fit cf_init two_users) two_users) (''a'', ''b'') = Some 2"
  by code_simp

text \<open>
  C2, amended. A second call \<^verbatim>\<open>fit(S)\<close> leaves the item list and the set of stored pairs
  as they are after the first call, and adds to every co-occurrence count the count that S
  alone gives on a fresh recommender. On a fresh recommender, \<^verbatim>\<open>fit(S)\<close> twice gives
  exactly twice the co-occurrence counts and twice the similarity entries of \<^verbatim>\<open>fit(S)\<close>
  once.
\<close>

theorem fit_twice:
  "item_ids (fit (fit st S) S) = item_ids (fit st S) \<and>
   co_get (co_occurrence (fit (fit st S) S)) k =
     co_get (co_occurrence (fit st S)) k + co_get (co_occurrence (fit cf_init S)) k \<and>
   co_get (co_occurrence (fit (fit cf_init S) S)) k = 2 * co_get (co_occurrence (fit cf_init S)) k \<and>
   dom (co_occurrence (fit (fit st S) S)) = dom (co_occurrence (fit st S)) \<and>
   similarity (fit (fit cf_init S) S) a b = map_option (\<lambda>c. 2 * c) (similarity (fit cf_init S) a b)"
proof -
  have ids: "item_ids (fit (fit st S) S) = item_ids (fit st S)" for st
  proof -
    have "set (map item_id S) \<subseteq> set (item_ids (fit st S))"
      by (simp add: fit_item_ids set_foldl_register)
    then show ?thesis
      using fit_item_ids [of "fit st S" S] by (simp add: foldl_register_idem)
  qed
  have twice: "co_get (co_occurrence (fit (fit cf_init S) S)) k =
      2 * co_get (co_occurrence (fit cf_init S)) k" for k
    using fit_co_get [of "fit cf_init S" S k] by simp
  have dom: "dom (co_occurrence (fit (fit st S) S)) = dom (co_occurrence (fit st S))"
    by (auto simp: fit_co_occurrence count_users_foldl dom_foldl_bump)
  have inv1: "cf_inv (fit cf_init S)"
    by (intro cf_inv_fit cf_inv_init)
  then have inv2: "cf_inv (fit (fit cf_init S) S)"
    by (rule cf_inv_fit)
  have sim: "similarity (fit (fit cf_init S) S) a b =
      map_option (\<lambda>c. 2 * c) (similarity (fit cf_init S) a b)"
    by (simp add: similarity_inv [OF inv1] similarity_inv [OF inv2] ids twice)
  from ids [of st] fit_co_get [of "fit st S" S k] twice dom sim show ?thesis
    by simp
qed

section \<open>Feature scoring\<close>

text \<open>
  C3 (scoring rule). The claim: the score of a candidate is the sum, over the entries of
  the query, of 0 for an absent key, 1 for equal values, the decay
  \<open>1 / (1 + \<bar>q - c\<bar>)\<close> for two unequal numeric values, and 0 for unequal values that are
  not both numeric, a boolean against a number being such a mismatch. It fails on
  booleans: the query value \<^verbatim>\<open>True\<close> against the candidate value 5 scores the double
  0.2, and \<^verbatim>\<open>True\<close> against \<^verbatim>\<open>False\<close> scores 0.5, where the claimed rule gives 0.
\<close>

theorem boolean_numeric_counterexample:
  "calculate_similarity [(''seats'', PBool True)] [(''seats'', PInt 5)] =
     Inr (F (Finite 3602879701896397 (- 54))) \<and>
   spec_score [(''seats'', PBool True)] [(''seats'', PInt 5)] = Inr (I 0) \<and>
   \<not> py_eq (F (Finite 3602879701896397 (- 54))) (I 0) \<and>
   find_similar stable_desc (add_item cb_init ''r1'' [(''seats'', PInt 5)]) [(''seats'', PBool True)] 5 =
     Inr [(''r1'', F (Finite 3602879701896397 (- 54)))] \<and>
   calculate_similarity [(''ac'', PBool True)] [(''ac'', PBool False)] = Inr (F (Finite 1 (- 1))) \<and>
   spec_score [(''ac'', PBool True)] [(''ac'', PBool False)] = Inr (I 0)"
  by code_simp

text \<open>
  C3, amended. With the booleans counted among the numeric values (\<^verbatim>\<open>True\<close> as 1,
  \<^verbatim>\<open>False\<close> as 0, in the comparison and in the decay), the score of a candidate is the
  sum, added in Python's arithmetic to the int 0 in the order of the query, of: nothing if
  the key is absent in the candidate; 1 if the two values are equal; the double
  \<open>1 / (1 + \<bar>q - c\<bar>)\<close> if they are unequal and both numeric; nothing if they are unequal and
  not both numeric. Computing the decay raises \<^verbatim>\<open>OverflowError\<close> when an int too large
  for a double is subtracted from or by a float, and the call then ends with that error.
  Every pair that \<^verbatim>\<open>find_similar\<close> returns is a stored item with that score.
\<close>

theorem similarity_score_per_key:
  "calculate_similarity query_features item = feature_score query_features item \<and>
   (python_sort srt \<and> find_similar srt st query_features n = Inr res \<longrightarrow>
      (\<forall>p \<in> set res. \<exists>fs. (fst p, fs) \<in> set (items st) \<and>
                         feature_score query_features fs = Inr (snd p)))"
proof -
  have stored: "\<exists>fs. (fst p, fs) \<in> set (items st) \<and> feature_score query_features fs = Inr (snd p)"
    if srt: "python_sort srt" and res: "find_similar srt st query_features n = Inr res"
      and p: "p \<in> set res" for p
  proof -
    from res obtain scores where scores: "all_scores st query_features = Inr scores"
      and r: "res = slice_to (srt scores) n"
      by (auto simp: find_similar_def split: sum.splits)
    from p r have "p \<in> set (srt scores)"
      using set_slice_to [of "srt scores" n] by auto
    then have "p \<in> set scores"
      by (simp add: python_sort_set [OF srt])
    with scores show ?thesis
      using score_items_sound [of query_features "items st" "[]" scores p]
      by (simp add: all_scores_def calculate_similarity_feature_score)
  qed
  with calculate_similarity_feature_score [of query_features item] show ?thesis
    by blast
qed

theorem similarity_score_per_key_witness:
  "python_sort stable_desc \<and>
   find_similar stable_desc price_store [(''price'', PInt 10)] 5 =
     Inr [(''x'', I 1), (''y'', F (Finite 6004799503160661 (- 55))), (''z'', I 0)] \<and>
   feature_score [(''price'', PInt 10)] [(''price'', PInt 15)] =
     Inr (F (Finite 6004799503160661 (- 55))) \<and>
   key_contribution (PInt 10) (Some (PInt 15)) = Inr (Some (F (Finite 6004799503160661 (- 55)))) \<and>
   key_contribution (PInt 10) (Some (PInt 10)) = Inr (Some (I 1)) \<and>
   key_contribution (PInt 10) (Some (PStr ''low'')) = Inr None \<and>
   key_contribution (PInt 10) None = Inr None \<and>
   key_contribution (PFloat (Finite 1 (- 1))) (Some (PInt (2 ^ 1024))) = Inl OverflowError \<and>
   feature_score [(''a'', PInt 0), (''b'', PInt 0), (''c'', PInt 0)]
       [(''a'', PInt 1), (''b'', PInt 2), (''c'', PInt 5)] =
     Inr (F (Finite 9007199254740991 (- 53))) \<and>
   feature_score [(''a'', PInt 0), (''b'', PInt 0), (''c'', PInt 0)]
       [(''a'', PInt 5), (''b'', PInt 2), (''c'', PInt 1)] =
     Inr (F (Finite 1 0)) \<and>
   feature_score [(''k'', PInt (2 ^ 53 + 1))] [(''k'', PFloat (Finite 1 53))] = Inr (F (Finite 1 0))"
proof -
  have r1: "feature_score [(''a'', PInt 0), (''b'', PInt 0), (''c'', PInt 0)]
       [(''a'', PInt 1), (''b'', PInt 2), (''c'', PInt 5)] =
     Inr (F (Finite 9007199254740991 (- 53)))"
    by code_simp
  have r2: "feature_score [(''a'', PInt 0), (''b'', PInt 0), (''c'', PInt 0)]
       [(''a'', PInt 5), (''b'', PInt 2), (''c'', PInt 1)] =
     Inr (F (Finite 1 0))"
    by code_simp
  have r3: "feature_score [(''k'', PInt (2 ^ 53 + 1))] [(''k'', PFloat (Finite 1 53))] =
     Inr (F (Finite 1 0))"
    by code_simp
  have p: "python_sort stable_desc"
    by (rule python_sort_stable_desc)
  have f: "find_similar stable_desc price_store [(''price'', PInt 10)] 5 =
     Inr [(''x'', I 1), (''y'', F (Finite 6004799503160661 (- 55))), (''z'', I 0)]"
    by code_simp
  have k1: "key_contribution (PInt 10) (Some (PInt 15)) = Inr (Some (F (Finite 6004799503160661 (- 55))))"
    by code_simp
  have k2: "key_contribution (PInt 10) (Some (PInt 10)) = Inr (Some (I 1))"
    by code_simp
  have k3: "key_contribution (PInt 10) (Some (PStr ''low'')) = Inr None"
    by code_simp
  have k4: "key_contribution (PInt 10) None = Inr None"
    by code_simp
  have k5: "key_contribution (PFloat (Finite 1 (- 1))) (Some (PInt (2 ^ 1024))) = Inl OverflowError"
    by code_simp
  have c: "calculate_similarity [(''price'', PInt 10)] [(''price'', PInt 15)] =
     Inr (F (Finite 6004799503160661 (- 55)))"
    by code_simp
  from similarity_score_per_key [of "[(''price'', PInt 10)]" "[(''price'', PInt 15)]" stable_desc
         price_store 5 "[(''x'', I 1), (''y'', F (Finite 6004799503160661 (- 55))), (''z'', I 0)]"]
       p f k1 k2 k3 k4 k5 c r1 r2 r3
  show ?thesis by simp
qed

section \<open>Bounds that are not positive\<close>

text \<open>
  C4 (bound at most 0). The claim: for every \<open>n \<le> 0\<close>, \<^verbatim>\<open>recommend\<close> and
  \<^verbatim>\<open>find_similar\<close> return an empty sequence and raise no error. It fails for a negative
  bound: with \<open>n = -1\<close> both return their ranking without its last entry, which is not
  empty here. It also fails for \<^verbatim>\<open>find_similar\<close> with \<open>n = 0\<close> when the scoring raises:
  a stored int too large for a double against the query value 0.5 ends the call with
  \<^verbatim>\<open>OverflowError\<close>, whatever the bound.
\<close>

theorem negative_bound_counterexample:
  "(-1 :: int) \<le> 0 \<and>
   recommend (fit cf_init one_user) [''a''] (-1) = [(''b'', 1)] \<and>
   recommend (fit cf_init one_user) [''a''] (-1) \<noteq> [] \<and>
   find_similar stable_desc price_store [(''price'', PInt 10)] (-1) =
     Inr [(''x'', I 1), (''y'', F (Finite 6004799503160661 (- 55)))] \<and>
   (\<forall>srt. find_similar srt big_store [(''price'', PFloat (Finite 1 (- 1)))] 0 = Inl OverflowError)"
proof -
  have r: "recommend (fit cf_init one_user) [''a''] (-1) = [(''b'', 1)]"
    by code_simp
  have f: "find_similar stable_desc price_store [(''price'', PInt 10)] (-1) =
     Inr [(''x'', I 1), (''y'', F (Finite 6004799503160661 (- 55)))]"
    by code_simp
  have "all_scores big_store [(''price'', PFloat (Finite 1 (- 1)))] = Inl OverflowError"
    by code_simp
  then have e: "find_similar srt big_store [(''price'', PFloat (Finite 1 (- 1)))] 0 = Inl OverflowError"
    for srt
    by (simp add: find_similar_def)
  from r f e show ?thesis by simp
qed

text \<open>
  C4, amended. For \<open>n = 0\<close>, \<^verbatim>\<open>recommend\<close> returns the empty sequence; for a negative
  \<open>n\<close> it returns the ranked sequence without its last \<open>\<bar>n\<bar>\<close> entries, which is empty
  exactly when the ranking has at most \<open>\<bar>n\<bar>\<close> entries; it raises no error.
  \<^verbatim>\<open>find_similar\<close> ends with the error of the scoring when the scoring raises one;
  otherwise it returns the empty sequence for \<open>n = 0\<close> and, for a negative \<open>n\<close>, the sorted
  scores without their last \<open>\<bar>n\<bar>\<close> entries, which is empty exactly when the store has at
  most \<open>\<bar>n\<bar>\<close> items.
\<close>

theorem nonpositive_bound:
  assumes "n \<le> 0"
  shows "recommend st user_history n =
           (if n = 0 then []
            else take (length (sorted_items st user_history) - nat (- n)) (sorted_items st user_history)) \<and>
         (recommend st user_history n = [] \<longleftrightarrow>
            n = 0 \<or> length (sorted_items st user_history) \<le> nat (- n)) \<and>
         (python_sort srt \<longrightarrow>
            find_similar srt cb query_features n =
              (case all_scores cb query_features of
                 Inl err \<Rightarrow> Inl err
               | Inr scores \<Rightarrow>
                   Inr (if n = 0 then [] else take (length (items cb) - nat (- n)) (srt scores))) \<and>
            (find_similar srt cb query_features n = Inr [] \<longleftrightarrow>
               (\<exists>scores. all_scores cb query_features = Inr scores) \<and>
               (n = 0 \<or> length (items cb) \<le> nat (- n))))"
proof -
  have r: "recommend st user_history n =
           (if n = 0 then []
            else take (length (sorted_items st user_history) - nat (- n)) (sorted_items st user_history)) \<and>
         (recommend st user_history n = [] \<longleftrightarrow>
            n = 0 \<or> length (sorted_items st user_history) \<le> nat (- n))"
    using assms by (auto simp: recommend_def slice_to_nonpositive)
  have f: "find_similar srt cb query_features n =
              (case all_scores cb query_features of
                 Inl err \<Rightarrow> Inl err
               | Inr scores \<Rightarrow>
                   Inr (if n = 0 then [] else take (length (items cb) - nat (- n)) (srt scores))) \<and>
            (find_similar srt cb query_features n = Inr [] \<longleftrightarrow>
               (\<exists>scores. all_scores cb query_features = Inr scores) \<and>
               (n = 0 \<or> length (items cb) \<le> nat (- n)))"
    if srt: "python_sort srt"
  proof (cases "all_scores cb query_features")
    case (Inl err)
    then show ?thesis by (simp add: find_similar_def)
  next
    case (Inr scores)
    have len: "length (srt scores) = length (items cb)"
      using python_sort_length [OF srt, of scores] all_scores_length [OF Inr] by simp
    show ?thesis
      using assms len by (auto simp: find_similar_def Inr slice_to_nonpositive)
  qed
  from r f show ?thesis by blast
qed

theorem nonpositive_bound_witness:
  "(-1 :: int) \<le> 0 \<and> (0 :: int) \<le> 0 \<and> python_sort stable_desc \<and>
   recommend (fit cf_init one_user) [''a''] 0 = [] \<and>
   find_similar stable_desc price_store [(''price'', PInt 10)] 0 = Inr [] \<and>
   sorted_items (fit cf_init one_user) [''a''] = [(''b'', 1), (''c'', 1)] \<and>
   recommend (fit cf_init one_user) [''a''] (-1) = [(''b'', 1)] \<and>
   all_scores price_store [(''price'', PInt 10)] =
     Inr [(''x'', I 1), (''y'', F (Finite 6004799503160661 (- 55))), (''z'', I 0)] \<and>
   find_similar stable_desc price_store [(''price'', PInt 10)] (-1) =
     Inr [(''x'', I 1), (''y'', F (Finite 6004799503160661 (- 55)))]"
proof -
  let ?scores = "[(''x'', I 1), (''y'', F (Finite 6004799503160661 (- 55))), (''z'', I 0)]"
  have a: "(-1 :: int) \<le> 0" and b: "(0 :: int) \<le> 0" by simp_all
  have p: "python_sort stable_desc"
    by (rule python_sort_stable_desc)
  have r: "sorted_items (fit cf_init one_user) [''a''] = [(''b'', 1), (''c'', 1)]"
    by code_simp
  have s: "all_scores price_store [(''price'', PInt 10)] = Inr ?scores"
    by code_simp
  have d: "stable_desc ?scores = ?scores"
    by code_simp
  have l: "length (items price_store) = 3"
    by code_simp
  from nonpositive_bound [OF a, of "fit cf_init one_user" "[''a'']" stable_desc price_store "[(''price'', PInt 10)]"]
       nonpositive_bound [OF b, of "fit cf_init one_user" "[''a'']" stable_desc price_store "[(''price'', PInt 10)]"]
       p r s d l
  show ?thesis by simp
qed

section \<open>Invariants of fitted states\<close>

text \<open>
  C5 (symmetry). In every state reached by any sequence of \<^verbatim>\<open>fit\<close> calls, every two
  distinct registered items A and B have a similarity entry in both directions, both equal
  to the co-occurrence count of their sorted pair, so similarity(A, B) = similarity(B, A);
  and every key of the co-occurrence table is a sorted pair, so that no unordered pair of
  distinct items is stored under both orderings.
\<close>

theorem symmetry_invariant:
  assumes "fitted st"
  shows "(\<forall>a \<in> set (item_ids st). \<forall>b \<in> set (item_ids st). a \<noteq> b \<longrightarrow>
            similarity st a b = Some (co_get (co_occurrence st) (sorted_pair a b)) \<and>
            similarity st a b = similarity st b a) \<and>
         (\<forall>a b. (a, b) \<in> dom (co_occurrence st) \<longrightarrow> a \<le> b) \<and>
         (\<forall>a b. a \<noteq> b \<and> (a, b) \<in> dom (co_occurrence st) \<longrightarrow> (b, a) \<notin> dom (co_occurrence st))"
proof -
  have inv: "cf_inv st" using assms by (rule fitted_inv)
  have sym: "similarity st a b = Some (co_get (co_occurrence st) (sorted_pair a b)) \<and>
             similarity st a b = similarity st b a"
    if "a \<in> set (item_ids st)" "b \<in> set (item_ids st)" "a \<noteq> b" for a b
    using that by (simp add: similarity_inv [OF inv] sorted_pair_commute [of a b])
  have le: "a \<le> b" if "(a, b) \<in> dom (co_occurrence st)" for a b
  proof -
    from inv have "\<forall>k \<in> dom (co_occurrence st). fst k \<le> snd k"
      by (simp add: cf_inv_def)
    then have "fst (a, b) \<le> snd (a, b)" using that by (rule bspec)
    then show ?thesis by simp
  qed
  have one: "(b, a) \<notin> dom (co_occurrence st)"
    if "a \<noteq> b" "(a, b) \<in> dom (co_occurrence st)" for a b
  proof
    assume "(b, a) \<in> dom (co_occurrence st)"
    then have "b \<le> a" by (rule le)
    moreover from that have "a \<le> b" by (simp add: le)
    ultimately show False using that(1) by simp
  qed
  from sym le one show ?thesis by blast
qed

theorem symmetry_invariant_witness:
  "fitted (fit cf_init two_users) \<and>
   ''a'' \<in> set (item_ids (fit cf_init two_users)) \<and>
   ''b'' \<in> set (item_ids (fit cf_init two_users)) \<and> ''a'' \<noteq> ''b'' \<and>
   similarity (fit cf_init two_users) ''a'' ''b'' = Some 1 \<and>
   similarity (fit cf_init two_users) ''b'' ''a'' = Some 1 \<and>
   (''a'', ''b'') \<in> dom (co_occurrence (fit cf_init two_users)) \<and>
   (''b'', ''a'') \<notin> dom (co_occurrence (fit cf_init two_users))"
proof -
  have f: "fitted (fit cf_init two_users)"
    by (rule fitted_fit [OF fitted_init])
  have ids: "item_ids (fit cf_init two_users) = [''a'', ''b'', ''c'']"
    by code_simp
  have ab: "similarity (fit cf_init two_users) ''a'' ''b'' = Some 1"
    by code_simp
  have k: "co_occurrence (fit cf_init two_users) (''a'', ''b'') = Some 1"
    by code_simp
  from symmetry_invariant [OF f] f ids ab k show ?thesis
    by (auto simp: dom_def)
qed

section \<open>Histories and candidates\<close>

text \<open>
  C9 (unknown history items). In every fitted state and for every bound,
  \<^verbatim>\<open>recommend\<close> returns the empty sequence when the history holds no registered item
  (the empty history among them), and in any history the unregistered items are skipped:
  the scores are those accumulated over the registered items of the history alone, the
  whole history still being excluded from the candidates. The function is total: no
  history raises an error.
\<close>

theorem recommend_unknown_history:
  assumes "fitted st"
  shows "(set user_history \<inter> set (item_ids st) = {} \<longrightarrow> recommend st user_history n = []) \<and>
         candidate_scores st user_history =
           accumulate (item_similarity st) user_history
             (filter (\<lambda>x. x \<in> set (item_ids st)) user_history) []"
proof -
  have inv: "cf_inv st" using assms by (rule fitted_inv)
  have known: "(\<lambda>x. item_similarity st x \<noteq> None) = (\<lambda>x. x \<in> set (item_ids st))"
    by (rule ext) (rule dom_item_similarity [OF inv])
  have skip: "candidate_scores st user_history =
      accumulate (item_similarity st) user_history
        (filter (\<lambda>x. x \<in> set (item_ids st)) user_history) []"
    unfolding candidate_scores_def
    by (subst accumulate_filter_known) (simp only: known)
  have empty: "recommend st user_history n = []"
    if "set user_history \<inter> set (item_ids st) = {}"
  proof -
    from that have "filter (\<lambda>x. x \<in> set (item_ids st)) user_history = []"
      by (auto simp: filter_empty_conv)
    with skip have "candidate_scores st user_history = []" by simp
    then show ?thesis
      by (simp add: recommend_def sorted_items_def sorted_by_score_desc_Nil slice_to_Nil)
  qed
  from skip empty show ?thesis by blast
qed

theorem recommend_unknown_history_witness:
  "fitted (fit cf_init two_users) \<and>
   set [''x'', ''y''] \<inter> set (item_ids (fit cf_init two_users)) = {} \<and>
   recommend (fit cf_init two_users) [''x'', ''y''] 5 = [] \<and>
   recommend (fit cf_init two_users) [] 5 = [] \<and>
   recommend (fit cf_init two_users) [''x'', ''b'', ''y''] 5 = [(''a'', 1), (''c'', 0)]"
proof -
  have f: "fitted (fit cf_init two_users)"
    by (rule fitted_fit [OF fitted_init])
  have ids: "item_ids (fit cf_init two_users) = [''a'', ''b'', ''c'']"
    by code_simp
  have d: "set [''x'', ''y''] \<inter> set (item_ids (fit cf_init two_users)) = {}"
    by (simp add: ids)
  have e: "set [] \<inter> set (item_ids (fit cf_init two_users)) = {}"
    by simp
  have m: "recommend (fit cf_init two_users) [''x'', ''b'', ''y''] 5 = [(''a'', 1), (''c'', 0)]"
    by code_simp
  from recommend_unknown_history [OF f, of "[''x'', ''y'']" 5]
       recommend_unknown_history [OF f, of "[]" 5] f d e m
  show ?thesis by simp
qed

text \<open>
  C10 (zero-score candidates). In every fitted state, for every history that holds at least
  one registered item, the keys of the score map are exactly the registered items that are
  not in the history; with a bound of at least their number, \<^verbatim>\<open>recommend\<close> returns every
  one of them, once, each with the sum of its co-occurrence counts with the registered
  items of the history, a candidate of score 0 included.
\<close>

theorem zero_score_candidates_returned:
  assumes "fitted st"
    and "\<exists>x \<in> set user_history. x \<in> set (item_ids st)"
    and "int (length (filter (\<lambda>b. b \<notin> set user_history) (item_ids st))) \<le> n"
  shows "fst ` set (candidate_scores st user_history) =
           {b \<in> set (item_ids st). b \<notin> set user_history} \<and>
         fst ` set (recommend st user_history n) =
           {b \<in> set (item_ids st). b \<notin> set user_history} \<and>
         length (recommend st user_history n) =
           length (filter (\<lambda>b. b \<notin> set user_history) (item_ids st)) \<and>
         (\<forall>p \<in> set (recommend st user_history n).
            snd p = (\<Sum>x\<leftarrow>filter (\<lambda>x. x \<in> set (item_ids st)) user_history.
                       co_get (co_occurrence st) (sorted_pair x (fst p))))"
proof -
  have inv: "cf_inv st" using assms(1) by (rule fitted_inv)
  note keys = candidate_keys_fitted [OF inv assms(2)]
  note len = length_candidate_scores [OF inv assms(2)]
  have "int (length (sorted_items st user_history)) \<le> n"
    using assms(3) by (simp add: sorted_items_def length_sorted_by_score_desc len)
  then have all: "recommend st user_history n = sorted_items st user_history"
    unfolding recommend_def by (rule slice_to_all)
  have score: "snd p = (\<Sum>x\<leftarrow>filter (\<lambda>x. x \<in> set (item_ids st)) user_history.
      co_get (co_occurrence st) (sorted_pair x (fst p)))"
    if "p \<in> set (recommend st user_history n)" for p
  proof -
    from that have p: "(fst p, snd p) \<in> set (candidate_scores st user_history)"
      using set_recommend_subset [of st user_history n] by auto
    then have "fst p \<in> fst ` set (candidate_scores st user_history)"
      by (rule image_eqI [rotated]) simp
    then have b: "fst p \<in> set (item_ids st)" "fst p \<notin> set user_history"
      unfolding keys by simp_all
    have "dict_get (candidate_scores st user_history) (fst p) 0 = snd p"
      using distinct_candidate_scores p by (rule in_dict_get)
    then show ?thesis
      using candidate_score_fitted [OF inv b] by simp
  qed
  from keys len score show ?thesis
    by (simp add: all sorted_items_def set_sorted_by_score_desc length_sorted_by_score_desc)
qed

theorem zero_score_candidates_returned_witness:
  "fitted (fit (fit cf_init two_users) other_user) \<and>
   (\<exists>x \<in> set [''b'']. x \<in> set (item_ids (fit (fit cf_init two_users) other_user))) \<and>
   int (length (filter (\<lambda>b. b \<notin> set [''b'']) (item_ids (fit (fit cf_init two_users) other_user)))) \<le> 4 \<and>
   fst ` set (recommend (fit (fit cf_init two_users) other_user) [''b''] 4) = {''a'', ''c'', ''d'', ''e''} \<and>
   recommend (fit (fit cf_init two_users) other_user) [''b''] 4 =
     [(''a'', 1), (''c'', 0), (''d'', 0), (''e'', 0)]"
proof -
  let ?st = "fit (fit cf_init two_users) other_user"
  have f: "fitted ?st"
    by (intro fitted_fit fitted_init)
  have ids: "item_ids ?st = [''a'', ''b'', ''c'', ''d'', ''e'']"
    by code_simp
  have k: "\<exists>x \<in> set [''b'']. x \<in> set (item_ids ?st)"
    by (simp add: ids)
  have l: "int (length (filter (\<lambda>b. b \<notin> set [''b'']) (item_ids ?st))) \<le> 4"
    by (simp add: ids)
  have r: "recommend ?st [''b''] 4 = [(''a'', 1), (''c'', 0), (''d'', 0), (''e'', 0)]"
    by code_simp
  from zero_score_candidates_returned [OF f k l] f k l r show ?thesis
    by (auto simp: ids)
qed

end
